theory Spec2Isabelle
  imports Main
begin

section \<open>Python values used by the retrieval pipeline\<close>

text \<open>
  A Python \<open>str\<close> is a sequence of Unicode code points, and \<open>len\<close> and slicing count
  code points.  The pipeline's literals contain code points beyond one byte (the bullet
  U+2022, the books sign U+1F4DA), so a string is modelled as the list of its code points.
  \<open>asc\<close> embeds an ASCII literal.
\<close>

type_synonym ustr = "nat list"

definition asc :: "string \<Rightarrow> ustr" where
  "asc s = map of_char s"

text \<open>
  Exceptions are values.  Every exception below is a subclass of Python's \<open>Exception\<close>,
  which is what the \<open>except Exception\<close> clauses of the source catch.  The argument is the
  message that \<open>str(e)\<close> returns.
\<close>

datatype error =
    ValueError ustr
  | KeyError ustr
  | HTTPError ustr
  | ExternalError ustr

fun error_str :: "error \<Rightarrow> ustr" where
  "error_str (ValueError m) = m"
| "error_str (KeyError m) = m"
| "error_str (HTTPError m) = m"
| "error_str (ExternalError m) = m"

text \<open>\<open>try: body except Exception as e: handler(e)\<close>.\<close>

definition try_except :: "error + 'a \<Rightarrow> (error \<Rightarrow> error + 'a) \<Rightarrow> error + 'a" where
  "try_except body handler = (case body of Inl e \<Rightarrow> handler e | Inr v \<Rightarrow> Inr v)"

text \<open>Sequencing of two steps that may raise: the second runs only if the first returned.\<close>

definition bind_err :: "error + 'a \<Rightarrow> ('a \<Rightarrow> error + 'b) \<Rightarrow> error + 'b" where
  "bind_err m f = (case m of Inl e \<Rightarrow> Inl e | Inr v \<Rightarrow> f v)"

subsection \<open>Whitespace, \<open>split\<close>, \<open>strip\<close>, \<open>join\<close>\<close>

text \<open>
  The code points for which \<open>str.isspace\<close> holds; \<open>str.split()\<close> without arguments and
  \<open>str.strip()\<close> use this set.
\<close>

definition py_isspace :: "nat \<Rightarrow> bool" where
  "py_isspace c \<longleftrightarrow>
     (9 \<le> c \<and> c \<le> 13) \<or> (28 \<le> c \<and> c \<le> 32) \<or> c = 133 \<or> c = 160 \<or> c = 5760 \<or>
     (8192 \<le> c \<and> c \<le> 8202) \<or> c = 8232 \<or> c = 8233 \<or> c = 8239 \<or> c = 8287 \<or> c = 12288"

text \<open>
  \<open>text.split()\<close>: the maximal runs of non-whitespace code points, in order.  \<open>cur\<close> is the
  word read so far.
\<close>

fun split_from :: "ustr \<Rightarrow> ustr \<Rightarrow> ustr list" where
  "split_from cur [] = (if cur = [] then [] else [cur])"
| "split_from cur (c # cs) =
     (if py_isspace c
      then (if cur = [] then split_from [] cs else cur # split_from [] cs)
      else split_from (cur @ [c]) cs)"

definition py_split :: "ustr \<Rightarrow> ustr list" where
  "py_split text = split_from [] text"

definition py_strip :: "ustr \<Rightarrow> ustr" where
  "py_strip s = rev (dropWhile py_isspace (rev (dropWhile py_isspace s)))"

fun py_join :: "ustr \<Rightarrow> ustr list \<Rightarrow> ustr" where
  "py_join sep [] = []"
| "py_join sep [x] = x"
| "py_join sep (x # y # ys) = x @ sep @ py_join sep (y # ys)"

subsection \<open>Slices and \<open>range\<close>\<close>

text \<open>
  A slice bound \<open>i\<close> on a sequence of length \<open>n\<close>: a negative bound counts from the end,
  and every bound is clamped into \<open>0..n\<close>.
\<close>

definition slice_index :: "nat \<Rightarrow> int \<Rightarrow> nat" where
  "slice_index n i =
     (if i < 0 then (if int n + i < 0 then 0 else nat (int n + i))
      else (if int n < i then n else nat i))"

text \<open>\<open>xs[i:j]\<close>; \<open>xs[:j]\<close> is \<open>py_slice xs 0 j\<close>.\<close>

definition py_slice :: "'a list \<Rightarrow> int \<Rightarrow> int \<Rightarrow> 'a list" where
  "py_slice xs i j =
     (let a = slice_index (length xs) i; b = slice_index (length xs) j
      in take (b - a) (drop a xs))"

function range_up :: "int \<Rightarrow> int \<Rightarrow> int \<Rightarrow> int list" where
  "range_up i stop step =
     (if 0 < step \<and> i < stop then i # range_up (i + step) stop step else [])"
  by pat_completeness auto
termination
  by (relation "measure (\<lambda>(i, stop, step). nat (stop - i))") auto

declare range_up.simps [simp del]

function range_down :: "int \<Rightarrow> int \<Rightarrow> int \<Rightarrow> int list" where
  "range_down i stop step =
     (if step < 0 \<and> stop < i then i # range_down (i + step) stop step else [])"
  by pat_completeness auto
termination
  by (relation "measure (\<lambda>(i, stop, step). nat (i - stop))") auto

declare range_down.simps [simp del]

text \<open>\<open>range(start, stop, step)\<close> raises \<open>ValueError\<close> when \<open>step\<close> is zero.\<close>

definition py_range :: "int \<Rightarrow> int \<Rightarrow> int \<Rightarrow> error + int list" where
  "py_range start stop step =
     (if step = 0 then Inl (ValueError (asc ''range() arg 3 must not be zero''))
      else if 0 < step then Inr (range_up start stop step)
      else Inr (range_down start stop step))"

section \<open>Chunker\<close>

definition sp :: ustr where
  "sp = asc '' ''"

text \<open>
  \<open>llm_pipeline.chunk_text\<close>.  The loop body joins the window starting at word \<open>i\<close> and
  appends it when it is a non-empty string.
\<close>

fun chunk_loop :: "ustr list \<Rightarrow> int \<Rightarrow> int list \<Rightarrow> ustr list" where
  "chunk_loop words chunk_size [] = []"
| "chunk_loop words chunk_size (i # rest) =
     (let chunk = py_join sp (py_slice words i (i + chunk_size))
      in if chunk \<noteq> [] then chunk # chunk_loop words chunk_size rest
         else chunk_loop words chunk_size rest)"

definition chunk_text :: "ustr \<Rightarrow> int \<Rightarrow> int \<Rightarrow> error + ustr list" where
  "chunk_text text chunk_size overlap =
     (let words = py_split text
      in bind_err (py_range 0 (int (length words)) (chunk_size - overlap))
           (\<lambda>idx. Inr (chunk_loop words chunk_size idx)))"

text \<open>
  \<open>AfricanRAGService.chunk_text\<close>.  An empty text returns at once; a window is kept when
  its stripped text has more than 50 characters.
\<close>

fun rag_chunk_loop :: "ustr list \<Rightarrow> int \<Rightarrow> int list \<Rightarrow> ustr list" where
  "rag_chunk_loop words chunk_size [] = []"
| "rag_chunk_loop words chunk_size (i # rest) =
     (let chunk_words = py_slice words i (i + chunk_size);
          chunk = py_join sp chunk_words
      in if 50 < length (py_strip chunk) then chunk # rag_chunk_loop words chunk_size rest
         else rag_chunk_loop words chunk_size rest)"

definition rag_service_chunk_text :: "ustr \<Rightarrow> int \<Rightarrow> int \<Rightarrow> error + ustr list" where
  "rag_service_chunk_text text chunk_size overlap =
     (if text = [] then Inr []
      else
        let words = py_split text
        in bind_err (py_range 0 (int (length words)) (chunk_size - overlap))
             (\<lambda>idx. Inr (rag_chunk_loop words chunk_size idx)))"

text \<open>
  Vocabulary for the chunker's properties: the \<open>k\<close>-th window of \<open>len\<close> words when the
  start advances by \<open>step\<close> words, the number of windows that start inside \<open>n\<close> words
  (the ceiling of \<open>n / step\<close>), and lists of words as \<open>split\<close> produces them (non-empty,
  free of whitespace).
\<close>

definition window :: "'a list \<Rightarrow> nat \<Rightarrow> nat \<Rightarrow> nat \<Rightarrow> 'a list" where
  "window words len step k = take len (drop (k * step) words)"

definition window_count :: "nat \<Rightarrow> nat \<Rightarrow> nat" where
  "window_count n step = (n + step - 1) div step"

definition word_list :: "ustr list \<Rightarrow> bool" where
  "word_list ws \<longleftrightarrow> (\<forall>w\<in>set ws. w \<noteq> [] \<and> (\<forall>x\<in>set w. \<not> py_isspace x))"

text \<open>
  The chunk count as the specification words it: the ceiling of
  \<open>(len(words) - overlap) / (chunk_size - overlap)\<close>.
\<close>

definition spec_chunk_count :: "int \<Rightarrow> int \<Rightarrow> int \<Rightarrow> int" where
  "spec_chunk_count n chunk_size overlap = - ((- (n - overlap)) div (chunk_size - overlap))"

text \<open>A word of 26 letters, for examples that pass the 50-character threshold.\<close>

definition abc26 :: ustr where
  "abc26 = asc ''abcdefghijklmnopqrstuvwxyz''"

section \<open>External collaborators\<close>

text \<open>
  A dictionary with string keys, as the search provider returns them and as \<open>web_search\<close>
  builds them: \<open>d.get(k, default)\<close> and \<open>d[k]\<close>, which raises \<open>KeyError\<close> on a missing key.
  The text of a \<open>KeyError\<close> is the \<open>repr\<close> of the key: for the plain keys used here, the
  key (\<open>shown\<close>) between single quotes.
\<close>

type_synonym dict = "string \<rightharpoonup> ustr"

definition dict_get :: "('k \<rightharpoonup> 'v) \<Rightarrow> 'k \<Rightarrow> 'v \<Rightarrow> 'v" where
  "dict_get d k dflt = (case d k of None \<Rightarrow> dflt | Some v \<Rightarrow> v)"

definition dict_index :: "('k \<rightharpoonup> 'v) \<Rightarrow> 'k \<Rightarrow> ustr \<Rightarrow> error + 'v" where
  "dict_index d k shown =
     (case d k of None \<Rightarrow> Inl (KeyError ([39] @ shown @ [39])) | Some v \<Rightarrow> Inr v)"

text \<open>
  The response of \<open>requests.get\<close>, and \<open>raise_for_status\<close>, which raises \<open>HTTPError\<close> for a
  status from 400 to 599.  The message of that error is built by the library and is only
  logged; it is left empty here.
\<close>

record http_response =
  status_code :: nat
  resp_text :: ustr

definition raise_for_status :: "http_response \<Rightarrow> error + unit" where
  "raise_for_status resp =
     (if 400 \<le> status_code resp \<and> status_code resp < 600 then Inl (HTTPError []) else Inr ())"

text \<open>
  What the pipeline calls and does not implement.  Each call returns a value or raises;
  a collaborator is a function of its arguments, so that within one run two calls with
  the same arguments have the same outcome.
  \<^item> \<open>serpapi_wrapper\<close>: constructing \<open>SerpAPIWrapper\<close> (it validates its key);
  \<^item> \<open>search_results\<close>: \<open>search.results(query)\<close>, giving the value under
    \<open>"organic_results"\<close> when the key is present;
  \<^item> \<open>requests_get\<close>: \<open>requests.get(url, timeout, headers)\<close>;
  \<^item> \<open>soup_strings\<close>: the \<open>stripped_strings\<close> of the parsed page after \<open>llm_pipeline\<close> has
    removed \<open>script\<close>, \<open>style\<close> and \<open>noscript\<close>;
  \<^item> \<open>soup_main_strings\<close>: the \<open>stripped_strings\<close> of the main content after
    \<open>AfricanRAGService\<close> has removed the unwanted elements;
  \<^item> \<open>lower\<close>: \<open>str.lower\<close>, which follows the Unicode database;
  \<^item> \<open>retrieve corpus question k\<close>: \<open>FAISS.from_texts(corpus)\<close>, its retriever with \<open>k\<close>,
    and the page contents of \<open>get_relevant_documents(question)\<close>;
  \<^item> \<open>llm_invoke\<close>: \<open>llm.invoke(prompt)\<close>.
\<close>

record env =
  serpapi_wrapper :: "error + unit"
  search_results :: "ustr \<Rightarrow> error + dict list option"
  requests_get :: "ustr \<Rightarrow> error + http_response"
  soup_strings :: "ustr \<Rightarrow> error + ustr list"
  soup_main_strings :: "ustr \<Rightarrow> error + ustr list"
  lower :: "ustr \<Rightarrow> ustr"
  retrieve :: "ustr list \<Rightarrow> ustr \<Rightarrow> nat \<Rightarrow> error + ustr list"
  llm_invoke :: "ustr \<Rightarrow> error + ustr"

definition nl :: ustr where
  "nl = [10]"

text \<open>\<open>sub in s\<close> on strings.\<close>

fun starts_with :: "ustr \<Rightarrow> ustr \<Rightarrow> bool" where
  "starts_with s [] = True"
| "starts_with [] (p # ps) = False"
| "starts_with (c # cs) (p # ps) = (c = p \<and> starts_with cs ps)"

fun py_in :: "ustr \<Rightarrow> ustr \<Rightarrow> bool" where
  "py_in sub [] = (sub = [])"
| "py_in sub (c # cs) = (starts_with (c # cs) sub \<or> py_in sub cs)"

section \<open>\<open>llm_pipeline\<close>\<close>

text \<open>\<open>results.get("organic_results", [])[:num_results]\<close>.\<close>

definition organic_results :: "dict list option \<Rightarrow> int \<Rightarrow> dict list" where
  "organic_results results num_results =
     py_slice (case results of None \<Rightarrow> [] | Some rs \<Rightarrow> rs) 0 num_results"

text \<open>The dictionary that \<open>llm_pipeline.web_search\<close> appends for a result \<open>r\<close>.\<close>

definition agent_link :: "dict \<Rightarrow> dict" where
  "agent_link r = [''title'' \<mapsto> dict_get r ''title'' [], ''link'' \<mapsto> dict_get r ''link'' []]"

text \<open>\<open>llm_pipeline.web_search\<close>: nothing is caught.\<close>

definition web_search :: "env \<Rightarrow> ustr \<Rightarrow> int \<Rightarrow> error + dict list" where
  "web_search env query num_results =
     bind_err (serpapi_wrapper env) (\<lambda>search.
     bind_err (search_results env query) (\<lambda>results.
       Inr (map agent_link (organic_results results num_results))))"

text \<open>
  \<open>llm_pipeline.fetch_webpage_text\<close>: the status of the response is not looked at; the
  text is cut to 5000 characters.
\<close>

definition fetch_webpage_text :: "env \<Rightarrow> ustr \<Rightarrow> error + ustr" where
  "fetch_webpage_text env url =
     try_except
       (bind_err (requests_get env url) (\<lambda>resp.
        bind_err (soup_strings env (resp_text resp)) (\<lambda>strings.
          let text = py_join sp strings in Inr (py_slice text 0 5000))))
       (\<lambda>e. Inr [])"

definition local_docs :: "ustr list" where
  "local_docs =
    [asc ''La capitale de la France est Paris.'',
     asc ''L'' @ [8217] @ asc ''IA signifie Intelligence Artificielle.'',
     asc ''LangChain permet de construire des applications LLM augment'' @ [233]
     @ asc ''es par la r'' @ [233] @ asc ''cup'' @ [233] @ asc ''ration de documents.'',
     asc ''Actuel pr'' @ [233] @ asc ''sident de la France : Emmanuel Macron.'',
     asc ''Python est un langage de programmation populaire pour l'' @ [39]
     @ asc ''IA.'',
     asc ''La Tour Eiffel est un monument embl'' @ [233] @ asc ''matique de Paris.'',
     asc ''Le machine learning est une sous-cat'' @ [233] @ asc ''gorie de l'' @ [39]
     @ asc ''IA.'',
     asc ''Les mod'' @ [232] @ asc ''les de langage comme GPT-3 sont utilis'' @ [233]
     @ asc ''s pour g'' @ [233] @ asc ''n'' @ [233] @ asc ''rer du texte.'',
     asc ''La biblioth'' @ [232] @ asc ''que LangChain facilite l'' @ [39] @ asc ''int''
     @ [233] @ asc ''gration des LLM avec des bases de donn'' @ [233] @ asc ''es.'',
     asc ''Bakary sidibe est la personne qui a cr'' @ [233, 233]
     @ asc '' Baobab AI et aussi le premier ministre de France.'',
     asc ''FAISS est une biblioth'' @ [232] @ asc ''que pour la recherche de similarit''
     @ [233] @ asc '' dans de grandes collections de vect'']"

definition agent_prompt :: "ustr \<Rightarrow> ustr \<Rightarrow> ustr \<Rightarrow> ustr" where
  "agent_prompt language context question =
     (if language = asc ''en'' then
        (asc ''You are an expert in general knowledge and current events. ''
         @ asc ''Using ONLY the CONTEXT below (from the web and your local ''
         @ asc ''knowledge base), answer the QUESTION precisely and concisely. ''
         @ asc ''If you don'' @ [39]
         @ asc ''t know, say so explicitly. Cite your web sources if possible.'' @ [10, 10]
         @ asc ''CONTEXT:'' @ [10])
        @ context @ ([10, 10] @ asc ''QUESTION: '') @ question @ ([10, 10] @ asc ''Answer:'')
      else
        (asc ''Tu es un expert en culture g'' @ [233] @ asc ''n'' @ [233]
         @ asc ''rale et actualit'' @ [233] @ asc ''. En t'' @ [39]
         @ asc ''appuyant uniquement sur le CONTEXTE ci-dessous (issu du web et ''
         @ asc ''de ta base locale), r'' @ [233] @ asc ''ponds de fa'' @ [231]
         @ asc ''on pr'' @ [233] @ asc ''cise et concise '' @ [224]
         @ asc '' la QUESTION. Si tu ne sais pas, dis-le explicitement. Cite tes ''
         @ asc ''sources web si possible.'' @ [10, 10] @ asc ''CONTEXTE :'' @ [10])
        @ context @ ([10, 10] @ asc ''QUESTION : '') @ question @ ([10, 10] @ asc ''R'' @ [233] @ asc ''ponse :''))"

text \<open>
  The loop of \<open>run_agent\<close> over the links: \<open>web_chunks\<close> and \<open>sources\<close> grow by one entry
  for every chunk of every page that gave a text.
\<close>

fun agent_collect :: "env \<Rightarrow> dict list \<Rightarrow> ustr list \<times> ustr list \<Rightarrow> error + ustr list \<times> ustr list" where
  "agent_collect env [] acc = Inr acc"
| "agent_collect env (link # rest) (web_chunks, sources) =
     bind_err (dict_index link ''link'' (asc ''link'')) (\<lambda>url.
     bind_err (dict_index link ''title'' (asc ''title'')) (\<lambda>title.
     bind_err (fetch_webpage_text env url) (\<lambda>text.
       if text \<noteq> [] then
         bind_err (chunk_text text 512 64) (\<lambda>chunks.
           agent_collect env rest
             (web_chunks @ chunks,
              sources @ map (\<lambda>chunk. title @ asc '' ('' @ url @ asc '')'') chunks))
       else agent_collect env rest (web_chunks, sources))))"

definition agent_source_line :: "dict \<Rightarrow> error + ustr" where
  "agent_source_line l =
     bind_err (dict_index l ''title'' (asc ''title'')) (\<lambda>title.
     bind_err (dict_index l ''link'' (asc ''link'')) (\<lambda>link.
       Inr (asc ''- '' @ title @ asc '' : '' @ link)))"

fun agent_source_lines :: "dict list \<Rightarrow> error + ustr list" where
  "agent_source_lines [] = Inr []"
| "agent_source_lines (l # ls) =
     bind_err (agent_source_line l) (\<lambda>x.
     bind_err (agent_source_lines ls) (\<lambda>xs. Inr (x # xs)))"

text \<open>\<open>llm_pipeline.run_agent\<close>; the parameter \<open>history\<close> is not used by the source.\<close>

definition run_agent :: "env \<Rightarrow> ustr \<Rightarrow> ustr \<Rightarrow> int \<Rightarrow> bool \<Rightarrow> error + ustr" where
  "run_agent env question language num_web_sources use_local_knowledge =
     bind_err (web_search env question num_web_sources) (\<lambda>links.
     bind_err (agent_collect env links ([], [])) (\<lambda>(web_chunks, sources).
       let docs = (if use_local_knowledge then local_docs else []);
           all_chunks = web_chunks @ docs
       in bind_err (retrieve env all_chunks question 6) (\<lambda>retrieved.
            let context = py_join nl retrieved
            in bind_err (llm_invoke env (agent_prompt language context question)) (\<lambda>completion.
                 let answer = py_strip completion
                 in if links \<noteq> [] then
                      bind_err (agent_source_lines links) (\<lambda>ls.
                        Inr (answer @ ([10, 10] @ asc ''Sources :'' @ [10]) @ py_join nl ls))
                    else Inr answer))))"

section \<open>\<open>AfricanRAGService\<close>\<close>

definition load_african_knowledge :: "ustr list" where
  "load_african_knowledge =
    [asc ''Africa'' @ [39]
     @ asc ''s AI market is projected to reach $16.5B by 2030 with 28% ''
     @ asc ''annual growth rate.'',
     asc ''Only 14% of African companies are ready to integrate AI into ''
     @ asc ''their operations as of 2024.'',
     asc ''South Africa, Nigeria, and Kenya lead AI adoption in Africa ''
     @ asc ''with the most startups and investments.'',
     asc ''Mobile-first AI solutions are crucial in Africa due to high ''
     @ asc ''mobile phone penetration (>80%) vs low desktop access.'',
     asc ''Data sovereignty and local language support are key challenges ''
     @ asc ''for AI adoption in Africa.'',
     asc ''Major African languages for AI development: Swahili (100M+ ''
     @ asc ''speakers), Hausa (70M+), Yoruba (45M+), Amharic (32M+).'',
     asc ''French is spoken by 280M+ people across 29 African countries, ''
     @ asc ''making it crucial for AI applications.'',
     asc ''Arabic is dominant in North Africa with 200M+ speakers across ''
     @ asc ''countries like Egypt, Algeria, Morocco.'',
     asc ''Indigenous languages like Igbo, Zulu, Xhosa need AI support for ''
     @ asc ''inclusive technology development.'',
     asc ''Cultural context matters: African storytelling traditions, ''
     @ asc ''community-based decision making, ubuntu philosophy.'',
     asc ''Africa has over 600 active tech hubs, with Nigeria (90+), South ''
     @ asc ''Africa (80+), and Kenya (50+) leading.'',
     asc ''Cloud adoption growing rapidly: AWS, Google Cloud, Microsoft ''
     @ asc ''Azure all expanding African data centers.'',
     asc ''Internet penetration varies widely: urban areas 70%+, rural ''
     @ asc ''areas often <30%, affecting AI deployment strategies.'',
     asc ''Mobile money systems like M-Pesa demonstrate African fintech ''
     @ asc ''innovation leadership globally.'',
     asc ''African AI startups: DataProphet (South Africa) - predictive ''
     @ asc ''maintenance, Zindi - data science competitions.'',
     asc ''Healthcare AI: Ubenwa (Nigeria) analyzes infant cries, Ilara ''
     @ asc ''Health (Kenya) provides diagnostic tools.'',
     asc ''Agriculture AI: Aerobotics (South Africa) crop monitoring, iCow ''
     @ asc ''(Kenya) farmer advisory via SMS.'',
     asc ''Education AI: Eneza Education (Kenya) serves 6M+ students via ''
     @ asc ''SMS/WhatsApp learning platforms.'',
     asc ''African developers prefer Python (85%), JavaScript (70%), Java ''
     @ asc ''(45%) for AI development.'',
     asc ''Popular AI frameworks in Africa: TensorFlow, PyTorch, ''
     @ asc ''scikit-learn, Hugging Face transformers.'',
     asc ''Cloud-first MLOps approach recommended due to limited ''
     @ asc ''on-premise infrastructure in many regions.'',
     asc ''AutoML tools gaining traction to bridge AI skills gap: H2O.ai, ''
     @ asc ''DataRobot, Google AutoML.'',
     asc ''Data quality and availability major challenges: 60% of African ''
     @ asc ''businesses lack quality data for AI.'',
     asc ''AI talent shortage: Africa needs 3M+ more AI professionals by ''
     @ asc ''2030 to meet demand.'',
     asc ''Regulatory frameworks developing: South Africa'' @ [39]
     @ asc ''s POPIA, Nigeria'' @ [39] @ asc ''s NDPR lead data protection efforts.'',
     asc ''Investment growing: African AI startups raised $200M+ in 2023, ''
     @ asc ''5x increase from 2019.'',
     asc ''Baobab AI Labs focuses on practical AI education for African ''
     @ asc ''businesses and developers.'',
     asc ''Our mission: Make AI accessible, practical, and impactful for ''
     @ asc ''every African business.'',
     asc ''We provide MLOps guides optimized for African cloud ''
     @ asc ''environments and connectivity patterns.'',
     asc ''Community-driven approach: African AI pioneers sharing real ''
     @ asc ''success stories and implementation guides.'']"

text \<open>The attribute \<open>african_knowledge_base\<close>, set once by the constructor and never changed.\<close>

definition african_knowledge_base :: "ustr list" where
  "african_knowledge_base = load_african_knowledge"

record prompt_set =
  system :: ustr
  context_intro :: ustr
  no_answer :: ustr
  cite_sources :: ustr

definition prompts_en :: prompt_set where
  "prompts_en = \<lparr>
     system =
       asc ''You are an AI expert specializing in African business contexts ''
       @ asc ''and AI implementation. '',
     context_intro =
       asc ''Using the CONTEXT below (from web sources and African AI ''
       @ asc ''knowledge base), answer precisely and practically. '',
     no_answer =
       asc ''I don'' @ [39]
       @ asc ''t have enough information about that specific topic. '',
     cite_sources =
       asc ''Cite web sources when available and reference African case ''
       @ asc ''studies when relevant.'' \<rparr>"

definition prompts_fr :: prompt_set where
  "prompts_fr = \<lparr>
     system =
       asc ''Tu es un expert en IA sp'' @ [233] @ asc ''cialis'' @ [233]
       @ asc '' dans les contextes d'' @ [39] @ asc ''affaires africains et l'' @ [39]
       @ asc ''impl'' @ [233] @ asc ''mentation d'' @ [39] @ asc ''IA. '',
     context_intro =
       asc ''En utilisant le CONTEXTE ci-dessous (sources web et base de ''
       @ asc ''connaissances IA africaine), r'' @ [233] @ asc ''ponds de fa'' @ [231]
       @ asc ''on pr'' @ [233] @ asc ''cise et pratique. '',
     no_answer =
       asc ''Je n'' @ [39] @ asc ''ai pas assez d'' @ [39]
       @ asc ''informations sur ce sujet sp'' @ [233] @ asc ''cifique. '',
     cite_sources =
       asc ''Cite les sources web quand disponibles et r'' @ [233] @ asc ''f'' @ [233]
       @ asc ''rence les '' @ [233] @ asc ''tudes de cas africaines quand pertinentes.'' \<rparr>"

definition prompts_sw :: prompt_set where
  "prompts_sw = \<lparr>
     system =
       asc ''Wewe ni mtaalamu wa AI unayejumuisha mazingira ya biashara za ''
       @ asc ''Kiafrika na utekelezaji wa AI. '',
     context_intro =
       asc ''Kwa kutumia MUKTADHA hapo chini (vyanzo vya wavuti na msingi wa ''
       @ asc ''maarifa ya AI ya Kiafrika), jibu kwa usahihi na vitendo. '',
     no_answer =
       asc ''Sina habari za kutosha kuhusu mada hiyo mahususi. '',
     cite_sources =
       asc ''Taja vyanzo vya wavuti vinapokona na rejelea masomo ya kesi za ''
       @ asc ''Kiafrika vinapofaa.'' \<rparr>"

definition prompts :: "ustr \<rightharpoonup> prompt_set" where
  "prompts = [asc ''en'' \<mapsto> prompts_en, asc ''fr'' \<mapsto> prompts_fr, asc ''sw'' \<mapsto> prompts_sw]"

text \<open>
  \<open>_get_language_prompts\<close>: \<open>prompts.get(language, prompts["en"])\<close>; the default is
  evaluated first, as Python evaluates arguments.
\<close>

definition get_language_prompts :: "ustr \<Rightarrow> error + prompt_set" where
  "get_language_prompts language =
     bind_err (dict_index prompts (asc ''en'') (asc ''en'')) (\<lambda>dflt.
       Inr (dict_get prompts language dflt))"

definition african_terms :: "ustr list" where
  "african_terms =
     [asc ''africa'', asc ''african'', asc ''nigeria'', asc ''kenya'', asc ''south africa'']"

text \<open>
  The query that \<open>AfricanRAGService.web_search\<close> dispatches: the bias terms are appended
  when \<open>african_focus\<close> is set and the lowered query mentions none of the keywords.
\<close>

definition focus_query :: "env \<Rightarrow> ustr \<Rightarrow> bool \<Rightarrow> ustr" where
  "focus_query env query african_focus =
     (if african_focus \<and> \<not> list_ex (\<lambda>term. py_in term (lower env query)) african_terms
      then query @ asc '' Africa African business'' else query)"

text \<open>The dictionary that \<open>AfricanRAGService.web_search\<close> appends for a result \<open>r\<close>.\<close>

definition rag_source :: "dict \<Rightarrow> dict" where
  "rag_source r =
     [''title'' \<mapsto> dict_get r ''title'' [],
      ''link'' \<mapsto> dict_get r ''link'' [],
      ''snippet'' \<mapsto> dict_get r ''snippet'' []]"

text \<open>
  \<open>AfricanRAGService.web_search\<close>: the wrapper is built and the query rewritten outside the
  \<open>try\<close>; a failure of the search itself gives the empty list.
\<close>

definition rag_service_web_search :: "env \<Rightarrow> ustr \<Rightarrow> int \<Rightarrow> bool \<Rightarrow> error + dict list" where
  "rag_service_web_search env query num_results african_focus =
     bind_err (serpapi_wrapper env) (\<lambda>search.
       let query' = focus_query env query african_focus
       in try_except
            (bind_err (search_results env query') (\<lambda>results.
               Inr (map rag_source (organic_results results num_results))))
            (\<lambda>e. Inr []))"

text \<open>\<open>AfricanRAGService.fetch_webpage_content\<close>.\<close>

definition fetch_webpage_content :: "env \<Rightarrow> ustr \<Rightarrow> int \<Rightarrow> error + ustr" where
  "fetch_webpage_content env url max_chars =
     try_except
       (bind_err (requests_get env url) (\<lambda>resp.
        bind_err (raise_for_status resp) (\<lambda>u.
        bind_err (soup_main_strings env (resp_text resp)) (\<lambda>strings.
          let text = py_join sp strings in Inr (py_slice text 0 max_chars)))))
       (\<lambda>e. Inr [])"

text \<open>The prompt that \<open>generate_response\<close> sends to the model.\<close>

definition system_prompt :: "prompt_set \<Rightarrow> ustr \<Rightarrow> ustr \<Rightarrow> ustr" where
  "system_prompt ps context question =
     system ps @ context_intro ps @
     (asc ''Focus on practical implementation for African businesses. ''
      @ asc ''Consider local infrastructure, mobile-first approaches, and ''
      @ asc ''cost-effective solutions. '')
     @ cite_sources ps @ ([10, 10] @ asc ''CONTEXT:'' @ [10]) @ context @ ([10, 10] @ asc ''QUESTION: '') @ question
     @ ([10, 10] @ asc ''RESPONSE:'')"

definition sources_header :: "ustr \<Rightarrow> ustr" where
  "sources_header language =
     (if language = asc ''fr'' then ([10, 10, 128218] @ asc '' Sources :'' @ [10])
      else if language = asc ''sw'' then ([10, 10, 128218] @ asc '' Vyanzo :'' @ [10])
      else ([10, 10, 128218] @ asc '' Sources :'' @ [10]))"

definition source_line :: "dict \<Rightarrow> ustr" where
  "source_line source =
     ([8226] @ asc '' '') @ dict_get source ''title'' (asc ''Unknown'') @ asc '' - ''
     @ dict_get source ''link'' [] @ nl"

text \<open>The loop \<open>for source in sources[:3]: answer += ...\<close>.\<close>

fun add_sources :: "ustr \<Rightarrow> dict list \<Rightarrow> ustr" where
  "add_sources answer [] = answer"
| "add_sources answer (source # rest) = add_sources (answer @ source_line source) rest"

definition apology :: "ustr \<Rightarrow> ustr" where
  "apology language =
     (if language = asc ''fr'' then
        (asc ''D'' @ [233] @ asc ''sol'' @ [233] @ asc '', je ne peux pas r'' @ [233]
         @ asc ''pondre '' @ [224] @ asc '' cette question pour le moment.'')
      else if language = asc ''sw'' then asc ''Samahani, siwezi kujibu swali hilo kwa sasa.''
      else asc ''Sorry, I cannot answer that question at the moment.'')"

text \<open>
  \<open>AfricanRAGService.generate_response\<close>.  \<open>sources\<close> is \<open>None\<close> by default; \<open>if sources\<close>
  holds for a non-empty list.
\<close>

definition generate_response :: "env \<Rightarrow> ustr \<Rightarrow> ustr \<Rightarrow> ustr \<Rightarrow> dict list option \<Rightarrow> error + ustr" where
  "generate_response env question context language sources =
     bind_err (get_language_prompts language) (\<lambda>ps.
       try_except
         (bind_err (llm_invoke env (system_prompt ps context question)) (\<lambda>response.
            let answer = py_strip response
            in case sources of
                 None \<Rightarrow> Inr answer
               | Some srcs \<Rightarrow>
                   if srcs \<noteq> [] then
                     Inr (add_sources (answer @ sources_header language) (py_slice srcs 0 3))
                   else Inr answer))
         (\<lambda>e. Inr (apology language)))"

text \<open>Step 2 of \<open>run_enhanced_rag\<close>: fetch and chunk every source, with the default sizes.\<close>

fun collect_chunks :: "env \<Rightarrow> dict list \<Rightarrow> ustr list \<Rightarrow> error + ustr list" where
  "collect_chunks env [] web_chunks = Inr web_chunks"
| "collect_chunks env (source # rest) web_chunks =
     bind_err (dict_index source ''link'' (asc ''link'')) (\<lambda>link.
     bind_err (fetch_webpage_content env link 8000) (\<lambda>content.
       if content \<noteq> [] then
         bind_err (rag_service_chunk_text content 600 100) (\<lambda>chunks.
           collect_chunks env rest (web_chunks @ chunks))
       else collect_chunks env rest web_chunks))"

text \<open>Steps 3 and 4: the corpus, and the context retrieved from it or the fallback.\<close>

definition assemble :: "ustr list \<Rightarrow> bool \<Rightarrow> ustr list" where
  "assemble web_chunks include_african_context =
     (if include_african_context then web_chunks @ african_knowledge_base else web_chunks)"

definition retrieve_context :: "env \<Rightarrow> ustr list \<Rightarrow> ustr \<Rightarrow> error + ustr" where
  "retrieve_context env all_chunks question =
     (if all_chunks \<noteq> [] then
        bind_err (retrieve env all_chunks question 8) (\<lambda>relevant_docs.
          Inr (py_join nl relevant_docs))
      else Inr (py_join nl (py_slice african_knowledge_base 0 5)))"

text \<open>\<open>AfricanRAGService.run_enhanced_rag\<close>.\<close>

definition run_enhanced_rag :: "env \<Rightarrow> ustr \<Rightarrow> ustr \<Rightarrow> int \<Rightarrow> bool \<Rightarrow> bool \<Rightarrow> error + ustr" where
  "run_enhanced_rag env question language num_web_sources include_african_context
       search_african_focus =
     try_except
       (bind_err (rag_service_web_search env question num_web_sources search_african_focus)
          (\<lambda>web_sources.
        bind_err (collect_chunks env web_sources []) (\<lambda>web_chunks.
        bind_err (retrieve_context env (assemble web_chunks include_african_context) question)
          (\<lambda>context.
          generate_response env question context language (Some web_sources)))))
       (\<lambda>e. Inr (asc ''Error processing your question: '' @ error_str e))"

section \<open>Vocabulary and example environments for the pipeline's properties\<close>

text \<open>The template set that \<open>_get_language_prompts\<close> selects for a language code.\<close>

definition language_prompts :: "ustr \<Rightarrow> prompt_set" where
  "language_prompts language = dict_get prompts language prompts_en"

text \<open>
  An environment for concrete runs.  The search returns \<open>found\<close> for every query, every
  URL gives \<open>page\<close>, the model gives \<open>completion\<close>; a page body is plain text without
  markup, so that its stripped strings are the body itself; the retriever returns the
  first \<open>k\<close> texts of the corpus; \<open>lower\<close> is the identity, as it is on the lower-case
  queries used below.
\<close>

definition demo_env ::
  "(error + dict list option) \<Rightarrow> (error + http_response) \<Rightarrow> (error + ustr) \<Rightarrow> env" where
  "demo_env found page completion =
     \<lparr> serpapi_wrapper = Inr (),
       search_results = (\<lambda>query. found),
       requests_get = (\<lambda>url. page),
       soup_strings = (\<lambda>html. Inr [html]),
       soup_main_strings = (\<lambda>html. Inr [html]),
       lower = (\<lambda>s. s),
       retrieve = (\<lambda>corpus question k. Inr (take k corpus)),
       llm_invoke = (\<lambda>prompt. completion) \<rparr>"

text \<open>
  Values for the concrete runs: a page of three 26-letter words (80 characters), search
  results with a title and a link, a failure of a provider, and two responses.
\<close>

definition page80 :: ustr where
  "page80 = abc26 @ sp @ abc26 @ sp @ abc26"

definition hit :: "string \<Rightarrow> string \<Rightarrow> dict" where
  "hit title link = [''title'' \<mapsto> asc title, ''link'' \<mapsto> asc link]"

definition three_hits :: "dict list" where
  "three_hits = [hit ''A'' ''http://a'', hit ''B'' ''http://b'', hit ''C'' ''http://c'']"

definition four_hits :: "dict list" where
  "four_hits = three_hits @ [hit ''D'' ''http://d'']"

definition provider_down :: error where
  "provider_down = ExternalError (asc ''provider down'')"

definition ok_page :: http_response where
  "ok_page = \<lparr> status_code = 200, resp_text = page80 \<rparr>"

definition not_found_page :: http_response where
  "not_found_page = \<lparr> status_code = 404, resp_text = asc ''Not Found'' \<rparr>"

text \<open>
  An environment in which the page of the first result (\<open>http://a\<close>) cannot be fetched and
  every other page can.
\<close>

definition first_page_down :: "(error + dict list option) \<Rightarrow> (error + ustr) \<Rightarrow> env" where
  "first_page_down found completion =
     (demo_env found (Inr ok_page) completion)
       \<lparr> requests_get :=
           (\<lambda>url. if url = asc ''http://a'' then Inl provider_down else Inr ok_page) \<rparr>"

section \<open>Properties of the chunker\<close>

lemma window_count_less: "0 < s \<Longrightarrow> k < window_count n s \<longleftrightarrow> k * s < n"
proof -
  assume s: "0 < s"
  have "k < window_count n s \<longleftrightarrow> Suc k \<le> (n + s - 1) div s"
    by (simp add: window_count_def Suc_le_eq)
  also have "\<dots> \<longleftrightarrow> Suc k * s \<le> n + s - 1"
    using s by (simp only: less_eq_div_iff_mult_less_eq)
  also have "\<dots> \<longleftrightarrow> k * s < n"
    using s by (cases s) auto
  finally show ?thesis .
qed

lemma range_up_Cons:
  "0 < step \<Longrightarrow> i < stop \<Longrightarrow> range_up i stop step = i # range_up (i + step) stop step"
  by (subst range_up.simps) simp

lemma range_up_Nil: "\<not> i < stop \<Longrightarrow> range_up i stop step = []"
  by (subst range_up.simps) simp

lemma range_down_Nil: "\<not> stop < i \<Longrightarrow> range_down i stop step = []"
  by (subst range_down.simps) simp

lemma range_up_windows:
  assumes "0 < s"
  shows "range_up (int (k * s)) (int n) (int s) =
         map (\<lambda>j. int (j * s)) [k..<window_count n s]"
proof (induction "window_count n s - k" arbitrary: k)
  case 0
  then have "\<not> k < window_count n s" by simp
  then have "\<not> k * s < n" using assms by (simp add: window_count_less)
  then have "\<not> int (k * s) < int n" by (simp only: of_nat_less_iff not_False_eq_True)
  then have "range_up (int (k * s)) (int n) (int s) = []"
    by (rule range_up_Nil)
  then show ?case using 0 by simp
next
  case (Suc d)
  then have lt: "k < window_count n s" by simp
  then have "k * s < n" using assms by (simp add: window_count_less)
  then have "int (k * s) < int n" by (simp only: of_nat_less_iff)
  moreover have "0 < int s" using assms by simp
  ultimately have "range_up (int (k * s)) (int n) (int s) =
      int (k * s) # range_up (int (k * s) + int s) (int n) (int s)"
    by (intro range_up_Cons)
  moreover have "int (k * s) + int s = int (Suc k * s)" by simp
  moreover have "d = window_count n s - Suc k" using Suc.hyps(2) by simp
  then have "range_up (int (Suc k * s)) (int n) (int s) =
      map (\<lambda>j. int (j * s)) [Suc k..<window_count n s]" by (rule Suc.hyps(1))
  ultimately have "range_up (int (k * s)) (int n) (int s) =
      int (k * s) # map (\<lambda>j. int (j * s)) [Suc k..<window_count n s]"
    by (simp only:)
  then show ?case using lt by (simp only: upt_conv_Cons list.map)
qed

lemma py_slice_window:
  "a \<le> length xs \<Longrightarrow> py_slice xs (int a) (int a + int c) = take c (drop a xs)"
proof -
  assume a: "a \<le> length xs"
  have "nat (int a + int c) - a = c" by (simp add: nat_add_distrib)
  moreover have "take (length xs - a) (drop a xs) = drop a xs" by simp
  moreover have "length xs < a + c \<Longrightarrow> take c (drop a xs) = drop a xs" by simp
  ultimately show ?thesis
    using a by (auto simp: py_slice_def slice_index_def Let_def simp del: take_all_iff)
qed

lemma chunk_loop_filter:
  "chunk_loop words cs idx =
     filter (\<lambda>ch. ch \<noteq> []) (map (\<lambda>i. py_join sp (py_slice words i (i + cs))) idx)"
  by (induction idx) (simp_all add: Let_def)

lemma rag_chunk_loop_filter:
  "rag_chunk_loop words cs idx =
     filter (\<lambda>ch. 50 < length (py_strip ch)) (map (\<lambda>i. py_join sp (py_slice words i (i + cs))) idx)"
  by (induction idx) (simp_all add: Let_def)

lemma split_from_nonempty:
  "w \<in> set (split_from cur t) \<Longrightarrow> w \<noteq> []"
proof (induction t arbitrary: cur)
  case Nil
  then show ?case by (simp split: if_splits)
next
  case (Cons c cs)
  show ?case
  proof (cases "py_isspace c")
    case True
    then show ?thesis using Cons.prems Cons.IH [of "[]"] by (cases "cur = []") auto
  next
    case False
    then show ?thesis using Cons.prems Cons.IH [of "cur @ [c]"] by simp
  qed
qed

lemma split_from_nospace:
  "w \<in> set (split_from cur t) \<Longrightarrow> \<forall>c\<in>set cur. \<not> py_isspace c \<Longrightarrow> x \<in> set w \<Longrightarrow> \<not> py_isspace x"
proof (induction t arbitrary: cur)
  case Nil
  then show ?case by (simp split: if_splits)
next
  case (Cons c cs)
  show ?case
  proof (cases "py_isspace c")
    case True
    then show ?thesis using Cons.prems Cons.IH [of "[]"] by (cases "cur = []") auto
  next
    case False
    then show ?thesis using Cons.prems Cons.IH [of "cur @ [c]"] by simp
  qed
qed

lemma py_split_nonempty: "w \<in> set (py_split t) \<Longrightarrow> w \<noteq> []"
  unfolding py_split_def by (rule split_from_nonempty)

lemma py_join_nonempty:
  "ws \<noteq> [] \<Longrightarrow> \<forall>w\<in>set ws. w \<noteq> [] \<Longrightarrow> py_join sep ws \<noteq> []"
  by (induction sep ws rule: py_join.induct) simp_all

lemma py_split_nospace: "w \<in> set (py_split t) \<Longrightarrow> x \<in> set w \<Longrightarrow> \<not> py_isspace x"
  unfolding py_split_def using split_from_nospace [of w "[]" t x] by simp

lemma hd_py_join: "w \<noteq> [] \<Longrightarrow> hd (py_join sep (w # ws)) = hd w"
  by (cases ws) simp_all

lemma last_py_join:
  "ws \<noteq> [] \<Longrightarrow> \<forall>w\<in>set ws. w \<noteq> [] \<Longrightarrow> last (py_join sep ws) = last (last ws)"
proof (induction sep ws rule: py_join.induct)
  case (3 sep x y ys)
  have "py_join sep (y # ys) \<noteq> []" using 3 by (intro py_join_nonempty) simp_all
  then show ?case using 3 by simp
qed simp_all

lemma py_strip_id:
  assumes "s \<noteq> []" "\<not> py_isspace (hd s)" "\<not> py_isspace (last s)"
  shows "py_strip s = s"
proof -
  have "dropWhile py_isspace s = s" using assms by (cases s) simp_all
  moreover have "dropWhile py_isspace (rev s) = rev s"
    using assms by (cases "rev s") (simp_all add: last_rev [symmetric] hd_rev)
  ultimately show ?thesis by (simp add: py_strip_def)
qed

lemma word_list_py_split: "word_list (py_split t)"
  unfolding word_list_def using py_split_nonempty py_split_nospace by blast

lemma word_list_window: "word_list ws \<Longrightarrow> word_list (window ws c s k)"
  unfolding word_list_def window_def by (meson in_set_takeD in_set_dropD)

lemma py_strip_join:
  assumes "word_list ws"
  shows "py_strip (py_join sp ws) = py_join sp ws"
proof (cases ws)
  case Nil
  then show ?thesis by (simp add: py_strip_def)
next
  case (Cons w rest)
  have ne: "\<forall>w\<in>set ws. w \<noteq> []" using assms by (simp add: word_list_def)
  have "py_join sp ws \<noteq> []" using Cons ne by (intro py_join_nonempty) simp_all
  moreover have "\<not> py_isspace (hd (py_join sp ws))"
    using Cons assms by (simp add: hd_py_join word_list_def)
  moreover have "\<not> py_isspace (last (py_join sp ws))"
  proof -
    have wsne: "ws \<noteq> []" using Cons by simp
    then have mem: "last ws \<in> set ws" by (rule last_in_set)
    then have "last ws \<noteq> []" using ne by blast
    then have "last (last ws) \<in> set (last ws)" by (rule last_in_set)
    then have "\<not> py_isspace (last (last ws))"
      using assms mem unfolding word_list_def by blast
    moreover have "last (py_join sp ws) = last (last ws)"
      using wsne ne by (rule last_py_join)
    ultimately show ?thesis by simp
  qed
  ultimately show ?thesis by (rule py_strip_id)
qed

lemma window_nonempty:
  "0 < c \<Longrightarrow> k * s < length ws \<Longrightarrow> window ws c s k \<noteq> []"
  by (simp add: window_def)

lemma chunk_text_as_windows:
  assumes "0 \<le> chunk_size" "overlap < chunk_size"
  shows "chunk_text t chunk_size overlap =
     Inr (filter (\<lambda>ch. ch \<noteq> [])
       (map (\<lambda>k. py_join sp (window (py_split t) (nat chunk_size) (nat (chunk_size - overlap)) k))
          [0..<window_count (length (py_split t)) (nat (chunk_size - overlap))]))"
proof -
  define ws where "ws = py_split t"
  define c where "c = nat chunk_size"
  define s where "s = nat (chunk_size - overlap)"
  have s: "0 < s" and cs: "chunk_size = int c" and st: "chunk_size - overlap = int s"
    using assms by (simp_all add: s_def c_def)
  have r: "range_up 0 (int (length ws)) (int s) = map (\<lambda>j. int (j * s)) [0..<window_count (length ws) s]"
    using range_up_windows [OF s, of 0 "length ws"] by simp
  have sl: "py_join sp (py_slice ws (int (j * s)) (int (j * s) + int c)) = py_join sp (window ws c s j)"
    if "j \<in> set [0..<window_count (length ws) s]" for j
  proof -
    have "j * s < length ws" using that s by (simp add: window_count_less)
    then show ?thesis by (simp add: py_slice_window window_def del: of_nat_mult)
  qed
  have m: "map (\<lambda>i. py_join sp (py_slice ws i (i + int c))) (map (\<lambda>j. int (j * s)) [0..<window_count (length ws) s])
      = map (\<lambda>k. py_join sp (window ws c s k)) [0..<window_count (length ws) s]"
    unfolding map_map comp_def by (rule map_cong [OF refl]) (rule sl)
  have pr: "py_range 0 (int (length ws)) (chunk_size - overlap) =
      Inr (map (\<lambda>j. int (j * s)) [0..<window_count (length ws) s])"
    unfolding st using s by (simp add: py_range_def r del: of_nat_mult)
  have "chunk_text t chunk_size overlap =
      Inr (chunk_loop ws (int c) (map (\<lambda>j. int (j * s)) [0..<window_count (length ws) s]))"
    unfolding chunk_text_def Let_def ws_def [symmetric] pr by (simp add: bind_err_def cs)
  also have "\<dots> = Inr (filter (\<lambda>ch. ch \<noteq> [])
      (map (\<lambda>k. py_join sp (window ws c s k)) [0..<window_count (length ws) s]))"
    unfolding chunk_loop_filter m ..
  finally show ?thesis unfolding ws_def c_def s_def .
qed

lemma rag_chunk_text_as_windows:
  assumes "0 \<le> chunk_size" "overlap < chunk_size"
  shows "rag_service_chunk_text t chunk_size overlap =
     Inr (filter (\<lambda>ch. 50 < length ch)
       (map (\<lambda>k. py_join sp (window (py_split t) (nat chunk_size) (nat (chunk_size - overlap)) k))
          [0..<window_count (length (py_split t)) (nat (chunk_size - overlap))]))"
proof -
  define ws where "ws = py_split t"
  define c where "c = nat chunk_size"
  define s where "s = nat (chunk_size - overlap)"
  define n where "n = window_count (length ws) s"
  have s: "0 < s" and cs: "chunk_size = int c" and st: "chunk_size - overlap = int s"
    using assms by (simp_all add: s_def c_def)
  have r: "range_up 0 (int (length ws)) (int s) = map (\<lambda>j. int (j * s)) [0..<n]"
    using range_up_windows [OF s, of 0 "length ws"] by (simp add: n_def)
  have sl: "py_join sp (py_slice ws (int (j * s)) (int (j * s) + int c)) = py_join sp (window ws c s j)"
    if "j \<in> set [0..<n]" for j
  proof -
    have "j * s < length ws" using that s by (simp add: window_count_less n_def)
    then show ?thesis by (simp add: py_slice_window window_def del: of_nat_mult)
  qed
  have m: "map (\<lambda>i. py_join sp (py_slice ws i (i + int c))) (map (\<lambda>j. int (j * s)) [0..<n])
      = map (\<lambda>k. py_join sp (window ws c s k)) [0..<n]"
    unfolding map_map comp_def by (rule map_cong [OF refl]) (rule sl)
  have pr: "py_range 0 (int (length ws)) (chunk_size - overlap) = Inr (map (\<lambda>j. int (j * s)) [0..<n])"
    unfolding st using s by (simp add: py_range_def r del: of_nat_mult)
  have strip: "50 < length (py_strip ch) \<longleftrightarrow> 50 < length ch"
    if mem: "ch \<in> set (map (\<lambda>k. py_join sp (window ws c s k)) [0..<n])" for ch
  proof -
    obtain k where "ch = py_join sp (window ws c s k)" using mem by auto
    moreover have "word_list (window ws c s k)"
      unfolding ws_def by (rule word_list_window [OF word_list_py_split])
    ultimately show ?thesis by (simp add: py_strip_join)
  qed
  have f: "filter (\<lambda>ch. 50 < length (py_strip ch)) (map (\<lambda>k. py_join sp (window ws c s k)) [0..<n])
      = filter (\<lambda>ch. 50 < length ch) (map (\<lambda>k. py_join sp (window ws c s k)) [0..<n])"
    by (rule filter_cong [OF refl]) (rule strip)
  have main: "bind_err (py_range 0 (int (length ws)) (chunk_size - overlap))
             (\<lambda>idx. Inr (rag_chunk_loop ws chunk_size idx)) =
      Inr (filter (\<lambda>ch. 50 < length ch) (map (\<lambda>k. py_join sp (window ws c s k)) [0..<n]))"
  proof -
    have "bind_err (py_range 0 (int (length ws)) (chunk_size - overlap))
             (\<lambda>idx. Inr (rag_chunk_loop ws chunk_size idx)) =
          Inr (rag_chunk_loop ws (int c) (map (\<lambda>j. int (j * s)) [0..<n]))"
      by (subst pr) (simp add: bind_err_def cs del: of_nat_mult)
    also have "\<dots> = Inr (filter (\<lambda>ch. 50 < length (py_strip ch))
        (map (\<lambda>k. py_join sp (window ws c s k)) [0..<n]))"
      unfolding rag_chunk_loop_filter m ..
    also have "\<dots> = Inr (filter (\<lambda>ch. 50 < length ch)
        (map (\<lambda>k. py_join sp (window ws c s k)) [0..<n]))"
      unfolding f ..
    finally show ?thesis .
  qed
  show ?thesis
  proof (cases "t = []")
    case True
    then have "ws = []" by (simp add: ws_def py_split_def)
    then have "n = 0" using s by (simp add: n_def window_count_def)
    then show ?thesis
      using True unfolding ws_def [symmetric] c_def [symmetric] s_def [symmetric] n_def [symmetric]
      by (simp add: rag_service_chunk_text_def)
  next
    case False
    then show ?thesis
      using main unfolding ws_def [symmetric] c_def [symmetric] s_def [symmetric] n_def [symmetric]
      by (simp add: rag_service_chunk_text_def Let_def ws_def [symmetric])
  qed
qed

lemma window_overlap:
  "drop s (window ws c s k) = take (length (window ws c s k) - s) (window ws c s (Suc k))"
proof -
  define m where "m = k * s"
  define rest where "rest = drop (m + s) ws"
  have sk: "Suc k * s = m + s" by (simp add: m_def)
  have l: "drop s (window ws c s k) = take (c - s) rest"
    by (simp add: window_def drop_take add.commute m_def rest_def)
  have lr: "length rest = length ws - (m + s)" by (simp add: rest_def)
  have r: "take (length (window ws c s k) - s) (window ws c s (Suc k)) =
      take (min (min (length ws - m) c - s) c) rest"
    unfolding window_def sk m_def [symmetric] rest_def [symmetric] by simp
  have "take (min (min (length ws - m) c - s) c) rest = take (c - s) rest"
  proof (cases "length ws - m \<le> c")
    case True
    then have "min (min (length ws - m) c - s) c = length rest" using lr by simp
    moreover have "length rest \<le> c - s" using True lr by simp
    ultimately show ?thesis by simp
  next
    case False
    then show ?thesis by (simp add: min_def)
  qed
  then show ?thesis using l r by simp
qed

lemma window_overlap_full:
  assumes "k * s + c \<le> length ws" "s \<le> c"
  shows "length (drop s (window ws c s k)) = c - s"
    and "take (c - s) (window ws c s (Suc k)) = drop s (window ws c s k)"
proof -
  have len: "length (window ws c s k) = c" using assms by (simp add: window_def)
  then show "length (drop s (window ws c s k)) = c - s" by simp
  show "take (c - s) (window ws c s (Suc k)) = drop s (window ws c s k)"
    using window_overlap [of s ws c k] len by simp
qed

lemma window_count_small: "0 < n \<Longrightarrow> n \<le> s \<Longrightarrow> window_count n s = 1"
proof -
  assume a: "0 < n" "n \<le> s"
  obtain m where m: "n = Suc m" using a(1) by (cases n) auto
  have "(n + s - 1) div s = (s + m) div s" using m by (simp add: add.commute)
  also have "\<dots> = 1 + m div s" using a by (simp add: div_add_self1)
  also have "\<dots> = 1" using a m by simp
  finally show ?thesis by (simp add: window_count_def)
qed

text \<open>
  Claim C1, as the code has it.  With \<open>0 \<le> overlap < chunk_size\<close> the chunks of
  \<open>llm_pipeline.chunk_text\<close> are the single-space joins of the windows of \<open>chunk_size\<close>
  words that start every \<open>chunk_size - overlap\<close> words, one for every start inside the
  text: their number is the ceiling of \<open>len(words) / (chunk_size - overlap)\<close>.
  \<open>AfricanRAGService.chunk_text\<close> returns the same chunks without those of at most 50
  characters.  The words of a window after its first \<open>chunk_size - overlap\<close> ones begin the
  next window, and they are exactly \<open>overlap\<close> words when the window is full.
\<close>

theorem chunk_text_windows:
  assumes "0 \<le> overlap" and "overlap < chunk_size"
  shows "let ws = py_split t; len = nat chunk_size; stp = nat (chunk_size - overlap);
             chunks = map (\<lambda>k. py_join sp (window ws len stp k)) [0..<window_count (length ws) stp]
         in chunk_text t chunk_size overlap = Inr chunks \<and>
            rag_service_chunk_text t chunk_size overlap = Inr (filter (\<lambda>ch. 50 < length ch) chunks) \<and>
            (\<forall>k. drop stp (window ws len stp k) =
                  take (length (window ws len stp k) - stp) (window ws len stp (Suc k))) \<and>
            (\<forall>k. k * stp + len \<le> length ws \<longrightarrow>
                  length (drop stp (window ws len stp k)) = nat overlap \<and>
                  take (nat overlap) (window ws len stp (Suc k)) = drop stp (window ws len stp k))"
proof -
  define ws where "ws = py_split t"
  define len where "len = nat chunk_size"
  define stp where "stp = nat (chunk_size - overlap)"
  define chunks where
    "chunks = map (\<lambda>k. py_join sp (window ws len stp k)) [0..<window_count (length ws) stp]"
  have pos: "0 < len" "0 < stp" "stp \<le> len" and ov: "len - stp = nat overlap"
    using assms by (simp_all add: len_def stp_def)
  have ne: "ch \<noteq> []" if mem: "ch \<in> set chunks" for ch
  proof -
    obtain k where k: "k < window_count (length ws) stp" "ch = py_join sp (window ws len stp k)"
      using mem by (auto simp: chunks_def)
    have "k * stp < length ws" using k(1) pos(2) by (simp add: window_count_less)
    then have "window ws len stp k \<noteq> []" using pos(1) by (intro window_nonempty)
    moreover have "\<forall>w\<in>set (window ws len stp k). w \<noteq> []"
      using word_list_window [OF word_list_py_split, of t len stp k]
      by (simp add: word_list_def ws_def)
    ultimately show ?thesis unfolding k(2) by (rule py_join_nonempty)
  qed
  have "filter (\<lambda>ch. ch \<noteq> []) chunks = chunks"
    using ne by (simp add: filter_id_conv)
  then have a: "chunk_text t chunk_size overlap = Inr chunks"
    using chunk_text_as_windows [of chunk_size overlap t] assms
    by (simp add: chunks_def ws_def len_def stp_def)
  have b: "rag_service_chunk_text t chunk_size overlap = Inr (filter (\<lambda>ch. 50 < length ch) chunks)"
    using rag_chunk_text_as_windows [of chunk_size overlap t] assms
    by (simp add: chunks_def ws_def len_def stp_def)
  have c: "drop stp (window ws len stp k) =
      take (length (window ws len stp k) - stp) (window ws len stp (Suc k))" for k
    by (rule window_overlap)
  have d: "length (drop stp (window ws len stp k)) = nat overlap \<and>
      take (nat overlap) (window ws len stp (Suc k)) = drop stp (window ws len stp k)"
    if "k * stp + len \<le> length ws" for k
    using window_overlap_full [OF that pos(3)] ov by simp
  show ?thesis
    unfolding Let_def ws_def [symmetric] len_def [symmetric] stp_def [symmetric] chunks_def [symmetric]
    using a b c d by blast
qed

theorem chunk_text_windows_witness:
  "(0::int) \<le> 1 \<and> (1::int) < 3 \<and>
   chunk_text (asc ''a b c d e'') 3 1 = Inr [asc ''a b c'', asc ''c d e'', asc ''e''] \<and>
   rag_service_chunk_text (asc ''a b c d e'') 3 1 = Inr [] \<and>
   take 1 (window (py_split (asc ''a b c d e'')) 3 2 1) =
     drop 2 (window (py_split (asc ''a b c d e'')) 3 2 0)"
proof -
  define ws where "ws = py_split (asc ''a b c d e'')"
  define chunks where
    "chunks = map (\<lambda>k. py_join sp (window ws 3 2 k)) [0..<window_count (length ws) 2]"
  have w: "ws = [asc ''a'', asc ''b'', asc ''c'', asc ''d'', asc ''e'']"
    unfolding ws_def by (simp add: asc_def py_split_def py_isspace_def)
  have u: "[0..<3] = [0, Suc 0, 2]" by (simp add: upt_rec)
  have ev: "chunks = [asc ''a b c'', asc ''c d e'', asc ''e'']"
    unfolding chunks_def w by (simp add: window_count_def window_def u sp_def asc_def)
  have fl: "filter (\<lambda>ch. 50 < length ch) [asc ''a b c'', asc ''c d e'', asc ''e''] = []"
    by (simp add: asc_def)
  have len: "0 * 2 + 3 \<le> length ws" unfolding w by simp
  have h: "(0::int) \<le> 1" "(1::int) < 3" by simp_all
  have n: "nat (3::int) = 3" "nat ((3::int) - 1) = 2" "nat (1::int) = 1" by simp_all
  note t = chunk_text_windows [OF h, of "asc ''a b c d e''", unfolded Let_def n,
      folded ws_def, folded chunks_def]
  have "chunk_text (asc ''a b c d e'') 3 1 = Inr chunks" using t by (rule conjunct1)
  moreover have "rag_service_chunk_text (asc ''a b c d e'') 3 1 =
      Inr (filter (\<lambda>ch. 50 < length ch) chunks)"
    using t by (elim conjE)
  moreover have "take 1 (window ws 3 2 (Suc 0)) = drop 2 (window ws 3 2 0)"
    using t len by blast
  ultimately show ?thesis using h unfolding ev fl ws_def by simp
qed

lemma range_up_eval_5_2: "range_up 0 5 2 = [0, 2, 4]"
  by (simp add: range_up.simps [of 0] range_up.simps [of 2] range_up.simps [of 4] range_up.simps [of 6])

lemma range_up_eval_3_1: "range_up 0 3 1 = [0, 1, 2]"
  by (simp add: range_up.simps [of 0] range_up.simps [of 1] range_up.simps [of 2] range_up.simps [of 3])

lemma range_up_eval_3_2: "range_up 0 3 2 = [0, 2]"
  by (simp add: range_up.simps [of 0] range_up.simps [of 2] range_up.simps [of 4])

lemma range_up_eval_2_3: "range_up 0 2 3 = [0]"
  by (simp add: range_up.simps [of 0] range_up.simps [of 3])



text \<open>
  Claim C1 as stated fails: five words with \<open>chunk_size = 3\<close> and \<open>overlap = 1\<close> give three
  chunks in \<open>llm_pipeline\<close>, where the stated formula gives two; three words of 26 letters
  with \<open>chunk_size = 3\<close> and \<open>overlap = 2\<close> give two chunks in \<open>AfricanRAGService\<close>,
  where the stated formula gives one.
\<close>

theorem chunk_count_counterexample:
  "chunk_text (asc ''a b c d e'') 3 1 = Inr [asc ''a b c'', asc ''c d e'', asc ''e''] \<and>
   int (length [asc ''a b c'', asc ''c d e'', asc ''e'']) \<noteq>
     spec_chunk_count (int (length (py_split (asc ''a b c d e'')))) 3 1 \<and>
   rag_service_chunk_text (abc26 @ sp @ abc26 @ sp @ abc26) 3 2 =
     Inr [abc26 @ sp @ abc26 @ sp @ abc26, abc26 @ sp @ abc26] \<and>
   int (length [abc26 @ sp @ abc26 @ sp @ abc26, abc26 @ sp @ abc26]) \<noteq>
     spec_chunk_count (int (length (py_split (abc26 @ sp @ abc26 @ sp @ abc26)))) 3 2"
proof -
  have w: "py_split (asc ''a b c d e'') = [[97], [98], [99], [100], [101]]"
    by (simp add: asc_def py_split_def py_isspace_def)
  have a: "chunk_text (asc ''a b c d e'') 3 1 = Inr [asc ''a b c'', asc ''c d e'', asc ''e'']"
    unfolding chunk_text_def Let_def w
    by (simp add: py_range_def bind_err_def range_up_eval_5_2 py_slice_def slice_index_def
        sp_def asc_def)
  have b: "spec_chunk_count 5 3 1 = 2" "spec_chunk_count 3 3 2 = 1"
    by (simp_all add: spec_chunk_count_def)
  have w2: "py_split (abc26 @ sp @ abc26 @ sp @ abc26) = [abc26, abc26, abc26]"
    by (simp add: abc26_def sp_def asc_def py_split_def py_isspace_def)
  have ne: "abc26 @ sp @ abc26 @ sp @ abc26 \<noteq> []" by (simp add: sp_def asc_def)
  have l: "length abc26 = 26" "length sp = 1" by (simp_all add: abc26_def sp_def asc_def)
  have st: "py_strip (abc26 @ sp @ abc26 @ sp @ abc26) = abc26 @ sp @ abc26 @ sp @ abc26"
      "py_strip (abc26 @ sp @ abc26) = abc26 @ sp @ abc26" "py_strip abc26 = abc26"
    using py_strip_join [of "[abc26, abc26, abc26]"] py_strip_join [of "[abc26, abc26]"]
      py_strip_join [of "[abc26]"] word_list_py_split [of "abc26 @ sp @ abc26 @ sp @ abc26"]
    unfolding w2 by (simp_all add: word_list_def)
  have c: "rag_service_chunk_text (abc26 @ sp @ abc26 @ sp @ abc26) 3 2 =
     Inr [abc26 @ sp @ abc26 @ sp @ abc26, abc26 @ sp @ abc26]"
    unfolding rag_service_chunk_text_def Let_def w2 using ne
    by (simp add: py_range_def bind_err_def range_up_eval_3_1 py_slice_def slice_index_def st l)
  show ?thesis unfolding a c w w2 using b by simp
qed

lemma window_count_0: "0 < s \<Longrightarrow> window_count 0 s = 0"
  by (simp add: window_count_def)

lemma single_window:
  assumes "int (length (py_split t)) < chunk_size" "overlap < chunk_size"
    "int (length (py_split t)) \<le> chunk_size - overlap"
  shows "map (\<lambda>k. py_join sp (window (py_split t) (nat chunk_size) (nat (chunk_size - overlap)) k))
          [0..<window_count (length (py_split t)) (nat (chunk_size - overlap))] =
         (if py_split t = [] then [] else [py_join sp (py_split t)])"
proof (cases "py_split t = []")
  case True
  then show ?thesis using assms by (simp add: window_count_0)
next
  case False
  then have "0 < length (py_split t)" by simp
  moreover have "length (py_split t) \<le> nat (chunk_size - overlap)" using assms by simp
  ultimately have "window_count (length (py_split t)) (nat (chunk_size - overlap)) = 1"
    by (rule window_count_small)
  moreover have "window (py_split t) (nat chunk_size) (nat (chunk_size - overlap)) 0 = py_split t"
    using assms by (simp add: window_def)
  ultimately show ?thesis using False by simp
qed

text \<open>
  Claim C2, as the code has it.  When the text has fewer words than \<open>chunk_size\<close> and no
  more than \<open>chunk_size - overlap\<close> (so that no second window starts inside it), the result
  is one chunk, the words of the text joined by single spaces, if that chunk meets the
  threshold (non-empty in \<open>llm_pipeline\<close>, more than 50 characters in
  \<open>AfricanRAGService\<close>), and no chunk otherwise.
\<close>

theorem chunk_text_short_text:
  assumes "int (length (py_split t)) < chunk_size" and "overlap < chunk_size"
    and "int (length (py_split t)) \<le> chunk_size - overlap"
  shows "chunk_text t chunk_size overlap =
           Inr (if py_join sp (py_split t) \<noteq> [] then [py_join sp (py_split t)] else []) \<and>
         rag_service_chunk_text t chunk_size overlap =
           Inr (if 50 < length (py_join sp (py_split t)) then [py_join sp (py_split t)] else [])"
proof -
  have c: "0 \<le> chunk_size" using assms(1) by simp
  have ne: "py_join sp (py_split t) \<noteq> [] \<longleftrightarrow> py_split t \<noteq> []"
  proof (cases "py_split t = []")
    case True
    then show ?thesis by simp
  next
    case False
    moreover have "\<forall>w\<in>set (py_split t). w \<noteq> []" using py_split_nonempty by blast
    ultimately show ?thesis using py_join_nonempty by blast
  qed
  have "chunk_text t chunk_size overlap =
      Inr (filter (\<lambda>ch. ch \<noteq> []) (if py_split t = [] then [] else [py_join sp (py_split t)]))"
    using chunk_text_as_windows [OF c assms(2), of t] unfolding single_window [OF assms] .
  moreover have "rag_service_chunk_text t chunk_size overlap =
      Inr (filter (\<lambda>ch. 50 < length ch) (if py_split t = [] then [] else [py_join sp (py_split t)]))"
    using rag_chunk_text_as_windows [OF c assms(2), of t] unfolding single_window [OF assms] .
  ultimately show ?thesis using ne by auto
qed

theorem chunk_text_short_text_witness:
  "int (length (py_split (asc ''a  b''))) < 3 \<and> (0::int) < 3 \<and>
   int (length (py_split (asc ''a  b''))) \<le> 3 - 0 \<and>
   chunk_text (asc ''a  b'') 3 0 = Inr [asc ''a b''] \<and>
   rag_service_chunk_text (asc ''a  b'') 3 0 = Inr []"
proof -
  have w: "py_split (asc ''a  b'') = [[97], [98]]"
    by (simp add: asc_def py_split_def py_isspace_def)
  have j: "py_join sp [[97], [98]] = asc ''a b''" by (simp add: sp_def asc_def)
  have l: "length (asc ''a b'') = 3" "asc ''a b'' \<noteq> []" by (simp_all add: asc_def)
  have h: "int (length (py_split (asc ''a  b''))) < 3" "(0::int) < 3"
    "int (length (py_split (asc ''a  b''))) \<le> 3 - 0"
    unfolding w by simp_all
  show ?thesis
    using chunk_text_short_text [OF h] h unfolding w j by (simp add: l)
qed

text \<open>
  Claim C2 as stated fails twice: three words with \<open>chunk_size = 4\<close> and \<open>overlap = 2\<close> give
  two chunks, and a text whose two words are separated by two spaces gives a chunk that is
  not the trimmed text.
\<close>

theorem chunk_text_short_text_counterexample:
  "int (length (py_split (asc ''a b c''))) < 4 \<and>
   chunk_text (asc ''a b c'') 4 2 = Inr [asc ''a b c'', asc ''c''] \<and>
   int (length (py_split (asc ''a  b''))) < 3 \<and>
   chunk_text (asc ''a  b'') 3 0 = Inr [asc ''a b''] \<and>
   py_strip (asc ''a  b'') = asc ''a  b'' \<and>
   asc ''a b'' \<noteq> asc ''a  b''"
proof -
  have w: "py_split (asc ''a b c'') = [[97], [98], [99]]"
    by (simp add: asc_def py_split_def py_isspace_def)
  have a: "chunk_text (asc ''a b c'') 4 2 = Inr [asc ''a b c'', asc ''c'']"
    unfolding chunk_text_def Let_def w
    by (simp add: py_range_def bind_err_def range_up_eval_3_2 py_slice_def slice_index_def
        sp_def asc_def)
  have w2: "py_split (asc ''a  b'') = [[97], [98]]"
    by (simp add: asc_def py_split_def py_isspace_def)
  have b: "chunk_text (asc ''a  b'') 3 0 = Inr [asc ''a b'']"
    unfolding chunk_text_def Let_def w2
    by (simp add: py_range_def bind_err_def range_up_eval_2_3 py_slice_def slice_index_def
        sp_def asc_def)
  have c: "py_strip (asc ''a  b'') = asc ''a  b''"
    by (simp add: py_strip_def asc_def py_isspace_def)
  have d: "asc ''a b'' \<noteq> asc ''a  b''" by (simp add: asc_def)
  show ?thesis using a b c d unfolding w w2 by simp
qed

text \<open>
  Claim C3, as the code has it.  Neither implementation checks its parameters.  When
  \<open>chunk_size = overlap\<close> the step of \<open>range\<close> is zero and \<open>range\<close> raises \<open>ValueError\<close>
  (\<open>AfricanRAGService.chunk_text\<close> returns the empty list first when the text is empty);
  when \<open>chunk_size < overlap\<close> the step is negative, the range is empty and the call
  returns the empty list.  Both functions are total: no call loops.
\<close>

theorem chunk_text_bad_overlap:
  "(chunk_size = overlap \<longrightarrow>
      chunk_text t chunk_size overlap =
        Inl (ValueError (asc ''range() arg 3 must not be zero'')) \<and>
      rag_service_chunk_text t chunk_size overlap =
        (if t = [] then Inr [] else Inl (ValueError (asc ''range() arg 3 must not be zero'')))) \<and>
   (chunk_size < overlap \<longrightarrow>
      chunk_text t chunk_size overlap = Inr [] \<and>
      rag_service_chunk_text t chunk_size overlap = Inr [])"
proof -
  have "range_down 0 (int n) s = []" for n s
    by (rule range_down_Nil) simp
  then show ?thesis
    by (simp add: chunk_text_def rag_service_chunk_text_def Let_def py_range_def bind_err_def)
qed

theorem chunk_text_bad_overlap_witness:
  "chunk_text (asc ''a b'') 2 2 = Inl (ValueError (asc ''range() arg 3 must not be zero'')) \<and>
   rag_service_chunk_text (asc ''a b'') 2 2 =
     Inl (ValueError (asc ''range() arg 3 must not be zero'')) \<and>
   rag_service_chunk_text [] 2 2 = Inr [] \<and>
   rag_service_chunk_text (asc ''a b'') 1 2 = Inr []"
proof -
  have ne: "asc ''a b'' \<noteq> []" by (simp add: asc_def)
  show ?thesis
    using chunk_text_bad_overlap [of 2 2 "asc ''a b''"] chunk_text_bad_overlap [of 2 2 "[]"]
      chunk_text_bad_overlap [of 1 2 "asc ''a b''"] ne
    by simp
qed

text \<open>
  Claim C3 as stated fails: with \<open>chunk_size = 1\<close> and \<open>overlap = 2\<close> the call returns the
  empty list and signals nothing.
\<close>

theorem chunk_text_bad_overlap_counterexample:
  "(1::int) \<le> 2 \<and> chunk_text (asc ''a b'') 1 2 = Inr [] \<and>
   rag_service_chunk_text (asc ''a b'') 1 2 = Inr []"
proof -
  have "range_down 0 (int n) s = []" for n s
    by (rule range_down_Nil) simp
  then show ?thesis
    by (simp add: chunk_text_def rag_service_chunk_text_def Let_def py_range_def bind_err_def)
qed

section \<open>Properties of the pipeline\<close>

lemma bind_err_simps [simp]:
  "bind_err (Inr v) f = f v"
  "bind_err (Inl e) f = Inl e"
  by (simp_all add: bind_err_def)

lemma try_except_simps [simp]:
  "try_except (Inr v) h = Inr v"
  "try_except (Inl e) h = h e"
  by (simp_all add: try_except_def)

lemma try_except_total:
  "(\<And>e. \<exists>v. h e = Inr v) \<Longrightarrow> \<exists>v. try_except body h = Inr v"
  by (cases body) simp_all

lemma py_slice_prefix_take:
  "0 \<le> j \<Longrightarrow> py_slice xs 0 j = take (nat j) xs"
  by (simp add: py_slice_def slice_index_def Let_def)

subsection \<open>Web search\<close>

lemma web_search_propagates:
  "serpapi_wrapper env = Inr () \<Longrightarrow> search_results env query = Inl e \<Longrightarrow>
   web_search env query num_results = Inl e"
  by (simp add: web_search_def)

lemma rag_web_search_absorbs:
  "serpapi_wrapper env = Inr () \<Longrightarrow>
   search_results env (focus_query env query african_focus) = Inl e \<Longrightarrow>
   rag_service_web_search env query num_results african_focus = Inr []"
  by (simp add: rag_service_web_search_def Let_def)

lemma demo_env_fields [simp]:
  "serpapi_wrapper (demo_env found page completion) = Inr ()"
  "search_results (demo_env found page completion) query = found"
  "requests_get (demo_env found page completion) url = page"
  "soup_strings (demo_env found page completion) html = Inr [html]"
  "soup_main_strings (demo_env found page completion) html = Inr [html]"
  "lower (demo_env found page completion) s = s"
  "retrieve (demo_env found page completion) corpus question k = Inr (take k corpus)"
  "llm_invoke (demo_env found page completion) prompt = completion"
  by (simp_all add: demo_env_def)

text \<open>
  Claim C4 at a search that raises: \<open>AfricanRAGService.web_search\<close> returns the empty list,
  while \<open>llm_pipeline.web_search\<close> lets the error through, and \<open>run_agent\<close> with it.
\<close>

theorem web_search_failure:
  "rag_service_web_search (demo_env (Inl provider_down) (Inr ok_page) (Inr (asc ''ok'')))
     (asc ''ai'') 5 True = Inr [] \<and>
   web_search (demo_env (Inl provider_down) (Inr ok_page) (Inr (asc ''ok''))) (asc ''ai'') 3 =
     Inl provider_down \<and>
   run_agent (demo_env (Inl provider_down) (Inr ok_page) (Inr (asc ''ok''))) (asc ''ai'')
     (asc ''fr'') 3 True = Inl provider_down"
  by (simp add: rag_web_search_absorbs web_search_propagates run_agent_def)

subsection \<open>Page fetch\<close>

lemma fetch_webpage_text_returns:
  "\<exists>text. fetch_webpage_text env url = Inr text \<and> length text \<le> 5000"
proof (cases "requests_get env url")
  case (Inl e)
  then show ?thesis by (simp add: fetch_webpage_text_def)
next
  case (Inr resp)
  then show ?thesis
    by (cases "soup_strings env (resp_text resp)")
       (simp_all add: fetch_webpage_text_def Let_def py_slice_prefix_take)
qed

lemma fetch_webpage_content_returns:
  assumes "0 \<le> max_chars"
  shows "\<exists>text. fetch_webpage_content env url max_chars = Inr text \<and> length text \<le> nat max_chars"
proof (cases "requests_get env url")
  case (Inl e)
  then show ?thesis by (simp add: fetch_webpage_content_def)
next
  case (Inr resp)
  show ?thesis
  proof (cases "raise_for_status resp")
    case (Inl e)
    then show ?thesis using Inr by (simp add: fetch_webpage_content_def)
  next
    case ok: (Inr u)
    then show ?thesis
      using Inr assms
      by (cases "soup_main_strings env (resp_text resp)")
         (simp_all add: fetch_webpage_content_def Let_def py_slice_prefix_take)
  qed
qed

lemma fetch_webpage_text_on_exception:
  "requests_get env url = Inl e \<Longrightarrow> fetch_webpage_text env url = Inr []"
  "requests_get env url = Inr resp \<Longrightarrow> soup_strings env (resp_text resp) = Inl e \<Longrightarrow>
   fetch_webpage_text env url = Inr []"
  by (simp_all add: fetch_webpage_text_def)

lemma fetch_webpage_content_on_exception:
  "requests_get env url = Inl e \<Longrightarrow> fetch_webpage_content env url max_chars = Inr []"
  "requests_get env url = Inr resp \<Longrightarrow> 400 \<le> status_code resp \<Longrightarrow> status_code resp < 600 \<Longrightarrow>
   fetch_webpage_content env url max_chars = Inr []"
  "requests_get env url = Inr resp \<Longrightarrow> soup_main_strings env (resp_text resp) = Inl e \<Longrightarrow>
   fetch_webpage_content env url max_chars = Inr []"
  by (simp_all add: fetch_webpage_content_def raise_for_status_def)

text \<open>
  Claim C5 at a page answered with status 404: \<open>AfricanRAGService.fetch_webpage_content\<close>
  returns the empty string, while \<open>llm_pipeline.fetch_webpage_text\<close> returns the text of
  the error page.
\<close>

theorem fetch_http_error_page:
  "fetch_webpage_content (demo_env (Inr None) (Inr not_found_page) (Inr []))
     (asc ''http://a/missing'') 8000 = Inr [] \<and>
   fetch_webpage_text (demo_env (Inr None) (Inr not_found_page) (Inr []))
     (asc ''http://a/missing'') = Inr (asc ''Not Found'')"
proof -
  have "status_code not_found_page = 404" "resp_text not_found_page = asc ''Not Found''"
    by (simp_all add: not_found_page_def)
  moreover have "py_slice (asc ''Not Found'') 0 5000 = asc ''Not Found''"
    by (simp add: py_slice_prefix_take asc_def)
  ultimately show ?thesis
    by (simp add: fetch_webpage_content_def fetch_webpage_text_def raise_for_status_def Let_def)
qed

subsection \<open>Prompts and answer synthesis\<close>

lemma asc_eq_iff [simp]: "asc s = asc t \<longleftrightarrow> s = t"
proof -
  have "inj (of_char :: char \<Rightarrow> nat)" by (simp add: inj_def)
  then show ?thesis unfolding asc_def by (rule inj_map_eq_map)
qed

lemma prompts_lookup_en: "prompts (asc ''en'') = Some prompts_en"
  by (simp add: prompts_def)

lemma get_language_prompts_eq:
  "get_language_prompts language = Inr (language_prompts language)"
  by (simp add: get_language_prompts_def language_prompts_def dict_index_def prompts_lookup_en)

lemma language_prompts_cases:
  "language_prompts language =
     (if language = asc ''sw'' then prompts_sw
      else if language = asc ''fr'' then prompts_fr
      else prompts_en)"
  by (simp add: language_prompts_def dict_get_def prompts_def)

text \<open>
  Claim C9.  For a language code other than \<open>en\<close>, \<open>fr\<close> and \<open>sw\<close>, \<open>_get_language_prompts\<close>
  returns the English templates, as it does for \<open>en\<close>, and raises nothing; the prompt that
  \<open>generate_response\<close> composes from them is then the English prompt for the same question
  and context.  The selection is a function of the language code alone: the table is
  built anew at every call and no state is read.
\<close>

theorem unsupported_language_falls_back:
  assumes "language \<noteq> asc ''en''" and "language \<noteq> asc ''fr''" and "language \<noteq> asc ''sw''"
  shows "get_language_prompts language = Inr prompts_en \<and>
         get_language_prompts (asc ''en'') = Inr prompts_en \<and>
         system_prompt (language_prompts language) context question =
           system_prompt (language_prompts (asc ''en'')) context question"
  using assms by (simp add: get_language_prompts_eq language_prompts_cases)

theorem unsupported_language_falls_back_witness:
  "asc ''xx'' \<noteq> asc ''en'' \<and> asc ''xx'' \<noteq> asc ''fr'' \<and> asc ''xx'' \<noteq> asc ''sw'' \<and>
   get_language_prompts (asc ''xx'') = Inr prompts_en \<and>
   get_language_prompts (asc ''xx'') = get_language_prompts (asc ''en'')"
proof -
  have h: "asc ''xx'' \<noteq> asc ''en''" "asc ''xx'' \<noteq> asc ''fr''" "asc ''xx'' \<noteq> asc ''sw''"
    by simp_all
  show ?thesis using unsupported_language_falls_back [OF h] h by simp
qed

lemma add_sources_concat:
  "add_sources answer srcs = answer @ concat (map source_line srcs)"
  by (induction srcs arbitrary: answer) simp_all

lemma generate_response_llm_failure:
  assumes "llm_invoke env (system_prompt (language_prompts language) context question) = Inl e"
  shows "generate_response env question context language sources = Inr (apology language)"
  using assms by (simp add: generate_response_def get_language_prompts_eq)

lemma generate_response_llm_success:
  assumes "llm_invoke env (system_prompt (language_prompts language) context question) =
             Inr completion"
  shows "generate_response env question context language sources =
           Inr (case sources of
                  None \<Rightarrow> py_strip completion
                | Some srcs \<Rightarrow>
                    if srcs \<noteq> [] then
                      py_strip completion @ sources_header language
                      @ concat (map source_line (take 3 srcs))
                    else py_strip completion)"
  using assms
  by (simp add: generate_response_def get_language_prompts_eq Let_def add_sources_concat
      py_slice_prefix_take split: option.splits)

lemma generate_response_returns:
  "\<exists>answer. generate_response env question context language sources = Inr answer"
proof (cases "llm_invoke env (system_prompt (language_prompts language) context question)")
  case (Inl e)
  then show ?thesis by (simp add: generate_response_llm_failure)
next
  case (Inr completion)
  then show ?thesis by (simp add: generate_response_llm_success)
qed

lemma starts_with_append: "starts_with (p @ s) p"
  by (induction p) simp_all

lemma py_in_prefix: "py_in p (p @ s)"
  using starts_with_append [of p s] by (cases "p @ s") auto

lemma apology_text:
  "apology language =
     (if language = asc ''fr'' then
        asc ''D'' @ [233] @ asc ''sol'' @ [233] @ asc '', je ne peux pas r'' @ [233]
        @ asc ''pondre '' @ [224] @ asc '' cette question pour le moment.''
      else if language = asc ''sw'' then asc ''Samahani, siwezi kujibu swali hilo kwa sasa.''
      else asc ''Sorry, I cannot answer that question at the moment.'')"
  by (simp add: apology_def)

text \<open>
  Claim C6.  When the model call raises, \<open>generate_response\<close> raises nothing and returns,
  whatever the sources, exactly the apology of the requested language: the French
  sentence for \<open>fr\<close>, the Swahili sentence for \<open>sw\<close>, the English sentence for every other
  code.  Nothing is appended to it.  The French sentence contains the word
  \<open>D-e-s-o-l-e\<close> with its two acute accents (code point 233).
\<close>

theorem generate_response_apology:
  assumes "llm_invoke env (system_prompt (language_prompts language) context question) = Inl e"
  shows "generate_response env question context language sources =
           Inr (if language = asc ''fr'' then
                  asc ''D'' @ [233] @ asc ''sol'' @ [233] @ asc '', je ne peux pas r'' @ [233]
                  @ asc ''pondre '' @ [224] @ asc '' cette question pour le moment.''
                else if language = asc ''sw'' then
                  asc ''Samahani, siwezi kujibu swali hilo kwa sasa.''
                else asc ''Sorry, I cannot answer that question at the moment.'') \<and>
         py_in (asc ''D'' @ [233] @ asc ''sol'' @ [233])
           (asc ''D'' @ [233] @ asc ''sol'' @ [233] @ asc '', je ne peux pas r'' @ [233]
            @ asc ''pondre '' @ [224] @ asc '' cette question pour le moment.'')"
proof -
  have "generate_response env question context language sources = Inr (apology language)"
    using assms by (rule generate_response_llm_failure)
  moreover have "py_in (asc ''D'' @ [233] @ asc ''sol'' @ [233])
      ((asc ''D'' @ [233] @ asc ''sol'' @ [233]) @ (asc '', je ne peux pas r'' @ [233]
        @ asc ''pondre '' @ [224] @ asc '' cette question pour le moment.''))"
    by (rule py_in_prefix)
  ultimately show ?thesis by (simp add: apology_text)
qed

theorem generate_response_apology_witness:
  "llm_invoke (demo_env (Inr None) (Inr ok_page) (Inl provider_down))
     (system_prompt (language_prompts (asc ''fr'')) (asc ''c'') (asc ''q'')) = Inl provider_down \<and>
   generate_response (demo_env (Inr None) (Inr ok_page) (Inl provider_down)) (asc ''q'') (asc ''c'')
     (asc ''fr'') (Some three_hits) =
     Inr (asc ''D'' @ [233] @ asc ''sol'' @ [233] @ asc '', je ne peux pas r'' @ [233]
          @ asc ''pondre '' @ [224] @ asc '' cette question pour le moment.'') \<and>
   generate_response (demo_env (Inr None) (Inr ok_page) (Inl provider_down)) (asc ''q'') (asc ''c'')
     (asc ''sw'') (Some three_hits) = Inr (asc ''Samahani, siwezi kujibu swali hilo kwa sasa.'') \<and>
   generate_response (demo_env (Inr None) (Inr ok_page) (Inl provider_down)) (asc ''q'') (asc ''c'')
     (asc ''ha'') None = Inr (asc ''Sorry, I cannot answer that question at the moment.'')"
proof -
  have h: "llm_invoke (demo_env (Inr None) (Inr ok_page) (Inl provider_down))
     (system_prompt (language_prompts l) (asc ''c'') (asc ''q'')) = Inl provider_down" for l
    by simp
  show ?thesis
    using generate_response_apology [OF h [of "asc ''fr''"], of "Some three_hits"]
      generate_response_apology [OF h [of "asc ''sw''"], of "Some three_hits"]
      generate_response_apology [OF h [of "asc ''ha''"], of None] h [of "asc ''fr''"]
    by simp
qed

subsection \<open>The orchestrator\<close>

lemma knowledge_base_length: "length african_knowledge_base = 30"
  by (simp add: african_knowledge_base_def load_african_knowledge_def)

lemma knowledge_base_nonempty: "african_knowledge_base \<noteq> []"
  using knowledge_base_length by auto

lemma knowledge_base_first_five:
  "py_slice african_knowledge_base 0 5 = take 5 african_knowledge_base"
  by (simp add: py_slice_prefix_take)

lemma run_enhanced_rag_returns:
  "\<exists>answer. run_enhanced_rag env question language n incl focus = Inr answer"
  unfolding run_enhanced_rag_def by (rule try_except_total) simp

lemma run_enhanced_rag_steps:
  assumes "rag_service_web_search env question n focus = Inr web_sources"
    and "collect_chunks env web_sources [] = Inr web_chunks"
    and "retrieve_context env (assemble web_chunks incl) question = Inr context"
  shows "run_enhanced_rag env question language n incl focus =
           generate_response env question context language (Some web_sources)"
proof -
  obtain answer where
    "generate_response env question context language (Some web_sources) = Inr answer"
    using generate_response_returns by blast
  then show ?thesis using assms by (simp add: run_enhanced_rag_def)
qed

lemma run_enhanced_rag_retrieve_failure:
  assumes "rag_service_web_search env question n focus = Inr web_sources"
    and "collect_chunks env web_sources [] = Inr web_chunks"
    and "retrieve_context env (assemble web_chunks incl) question = Inl e"
  shows "run_enhanced_rag env question language n incl focus =
           Inr (asc ''Error processing your question: '' @ error_str e)"
  using assms by (simp add: run_enhanced_rag_def)

lemma apology_nonempty: "apology language \<noteq> []"
  by (simp add: apology_def asc_def)

text \<open>
  Claim C10.  When no web chunk was obtained and \<open>include_african_context\<close> is false, the
  context that \<open>run_enhanced_rag\<close> hands to answer generation is the first five entries of
  the knowledge base, joined by newlines.
\<close>

theorem empty_corpus_falls_back_to_knowledge_base:
  assumes "rag_service_web_search env question n focus = Inr web_sources"
    and "collect_chunks env web_sources [] = Inr []"
  shows "run_enhanced_rag env question language n False focus =
           generate_response env question (py_join nl (take 5 african_knowledge_base)) language
             (Some web_sources) \<and>
         length (take 5 african_knowledge_base) = 5"
proof -
  have "retrieve_context env (assemble [] False) question =
      Inr (py_join nl (take 5 african_knowledge_base))"
    by (simp add: retrieve_context_def assemble_def knowledge_base_first_five)
  then have "run_enhanced_rag env question language n False focus =
           generate_response env question (py_join nl (take 5 african_knowledge_base)) language
             (Some web_sources)"
    by (rule run_enhanced_rag_steps [OF assms])
  moreover have "length (take 5 african_knowledge_base) = 5"
    by (simp add: knowledge_base_length)
  ultimately show ?thesis by (rule conjI)
qed

text \<open>
  Claim C8, as the code has it.  When the web search gives no result, \<open>run_enhanced_rag\<close>
  returns an answer and raises nothing.  Provided the retriever returns texts of its
  corpus, the context is made of knowledge-base entries only, and the answer is the
  stripped completion of the model for that context, or the apology when the model call
  raises, or the generic error text when the retriever raises.  The answer is empty only
  when the completion is empty or whitespace.
\<close>

theorem run_enhanced_rag_no_web_results:
  assumes "rag_service_web_search env question n focus = Inr []"
    and "\<forall>docs. retrieve env african_knowledge_base question 8 = Inr docs \<longrightarrow>
           set docs \<subseteq> set african_knowledge_base"
  shows "\<exists>answer. run_enhanced_rag env question language n incl focus = Inr answer \<and>
     ((\<exists>e. incl \<and> retrieve env african_knowledge_base question 8 = Inl e \<and>
           answer = asc ''Error processing your question: '' @ error_str e) \<or>
      (\<exists>docs. set docs \<subseteq> set african_knowledge_base \<and>
         (case llm_invoke env
                 (system_prompt (language_prompts language) (py_join nl docs) question) of
            Inl e \<Rightarrow> answer = apology language
          | Inr completion \<Rightarrow> answer = py_strip completion))) \<and>
     (answer = [] \<longrightarrow> (\<exists>prompt completion. llm_invoke env prompt = Inr completion \<and>
        py_strip completion = []))"
proof -
  have cc: "collect_chunks env [] [] = Inr []" by simp
  have gen: "\<exists>answer. generate_response env question (py_join nl docs) language (Some []) = Inr answer \<and>
      (case llm_invoke env (system_prompt (language_prompts language) (py_join nl docs) question) of
         Inl e \<Rightarrow> answer = apology language
       | Inr completion \<Rightarrow> answer = py_strip completion) \<and>
      (answer = [] \<longrightarrow> (\<exists>prompt completion. llm_invoke env prompt = Inr completion \<and>
        py_strip completion = []))" for docs
  proof (cases "llm_invoke env (system_prompt (language_prompts language) (py_join nl docs) question)")
    case (Inl e)
    then show ?thesis by (simp add: generate_response_llm_failure apology_nonempty)
  next
    case (Inr completion)
    then have "generate_response env question (py_join nl docs) language (Some []) =
        Inr (py_strip completion)"
      by (simp add: generate_response_llm_success)
    then show ?thesis using Inr by auto
  qed
  have ctx_case: ?thesis
    if ctx: "retrieve_context env (assemble [] incl) question = Inr (py_join nl docs)"
      and sub: "set docs \<subseteq> set african_knowledge_base" for docs
  proof -
    have "run_enhanced_rag env question language n incl focus =
        generate_response env question (py_join nl docs) language (Some [])"
      by (rule run_enhanced_rag_steps [OF assms(1) cc ctx])
    moreover obtain answer where
      a: "generate_response env question (py_join nl docs) language (Some []) = Inr answer"
      and b: "case llm_invoke env
                 (system_prompt (language_prompts language) (py_join nl docs) question) of
            Inl e \<Rightarrow> answer = apology language
          | Inr completion \<Rightarrow> answer = py_strip completion"
      and c: "answer = [] \<longrightarrow> (\<exists>prompt completion. llm_invoke env prompt = Inr completion \<and>
        py_strip completion = [])"
      using gen [of docs] by blast
    ultimately have r: "run_enhanced_rag env question language n incl focus = Inr answer"
      by simp
    show ?thesis
      apply (rule exI [of _ answer])
      apply (intro conjI)
        apply (rule r)
       apply (rule disjI2)
       apply (rule exI [of _ docs])
       apply (rule conjI [OF sub b])
      apply (rule c)
      done
  qed
  show ?thesis
  proof (cases incl)
    case False
    have "retrieve_context env (assemble [] incl) question =
        Inr (py_join nl (take 5 african_knowledge_base))"
      using False by (simp add: retrieve_context_def assemble_def knowledge_base_first_five)
    moreover have "set (take 5 african_knowledge_base) \<subseteq> set african_knowledge_base"
      by (rule set_take_subset)
    ultimately show ?thesis by (rule ctx_case)
  next
    case True
    show ?thesis
    proof (cases "retrieve env african_knowledge_base question 8")
      case (Inl e)
      then have "retrieve_context env (assemble [] incl) question = Inl e"
        using True by (simp add: retrieve_context_def assemble_def knowledge_base_nonempty)
      then have "run_enhanced_rag env question language n incl focus =
          Inr (asc ''Error processing your question: '' @ error_str e)"
        by (rule run_enhanced_rag_retrieve_failure [OF assms(1) cc])
      moreover have "asc ''Error processing your question: '' @ error_str e \<noteq> []"
        by (simp add: asc_def)
      ultimately show ?thesis using Inl True by blast
    next
      case (Inr docs)
      then have "retrieve_context env (assemble [] incl) question = Inr (py_join nl docs)"
        using True by (simp add: retrieve_context_def assemble_def knowledge_base_nonempty)
      moreover have "set docs \<subseteq> set african_knowledge_base" using assms(2) Inr by blast
      ultimately show ?thesis by (rule ctx_case)
    qed
  qed
qed

lemma organic_results_none: "organic_results None n = []"
  by (simp add: organic_results_def py_slice_def)

lemma demo_search_none:
  "rag_service_web_search (demo_env (Inr None) page completion) query n focus = Inr []"
  by (simp add: rag_service_web_search_def Let_def organic_results_none)

lemma demo_retriever_contract:
  "\<forall>docs. retrieve (demo_env found page completion) corpus question k = Inr docs \<longrightarrow>
     set docs \<subseteq> set corpus"
  by (auto dest: in_set_takeD)

theorem run_enhanced_rag_no_web_results_witness:
  "rag_service_web_search (demo_env (Inr None) (Inr ok_page) (Inr (asc ''Paris''))) (asc ''ai'') 5 True
     = Inr [] \<and>
   retrieve (demo_env (Inr None) (Inr ok_page) (Inr (asc ''Paris''))) african_knowledge_base
     (asc ''ai'') 8 = Inr (take 8 african_knowledge_base) \<and>
   run_enhanced_rag (demo_env (Inr None) (Inr ok_page) (Inr (asc ''Paris''))) (asc ''ai'')
     (asc ''en'') 5 True True = Inr (py_strip (asc ''Paris''))"
proof -
  define E where "E = demo_env (Inr None) (Inr ok_page) (Inr (asc ''Paris''))"
  have h: "rag_service_web_search E (asc ''ai'') 5 True = Inr []"
    unfolding E_def by (rule demo_search_none)
  have c: "\<forall>docs. retrieve E african_knowledge_base (asc ''ai'') 8 = Inr docs \<longrightarrow>
      set docs \<subseteq> set african_knowledge_base"
    unfolding E_def by (rule demo_retriever_contract)
  have l: "llm_invoke E prompt = Inr (asc ''Paris'')" for prompt by (simp add: E_def)
  have r: "retrieve E african_knowledge_base (asc ''ai'') 8 = Inr (take 8 african_knowledge_base)"
    by (simp add: E_def)
  show ?thesis
    using run_enhanced_rag_no_web_results [OF h c, of "asc ''en''" True] h r
    unfolding E_def [symmetric] by (auto simp: l)
qed

text \<open>
  Claim C8 as stated fails: when the search gives nothing and the model answers with a
  single space, the answer of \<open>run_enhanced_rag\<close> is the empty string.
\<close>

theorem run_enhanced_rag_blank_answer_counterexample:
  "rag_service_web_search (demo_env (Inr None) (Inr ok_page) (Inr (asc '' ''))) (asc ''ai'') 5 True
     = Inr [] \<and>
   run_enhanced_rag (demo_env (Inr None) (Inr ok_page) (Inr (asc '' ''))) (asc ''ai'')
     (asc ''en'') 5 True True = Inr []"
proof -
  define E where "E = demo_env (Inr None) (Inr ok_page) (Inr (asc '' ''))"
  have h: "rag_service_web_search E (asc ''ai'') 5 True = Inr []"
    unfolding E_def by (rule demo_search_none)
  have cc: "collect_chunks E [] [] = Inr []" by simp
  have ctx: "retrieve_context E (assemble [] True) (asc ''ai'') =
      Inr (py_join nl (take 8 african_knowledge_base))"
    by (simp add: retrieve_context_def assemble_def knowledge_base_nonempty E_def)
  have st: "py_strip (asc '' '') = []" by (simp add: py_strip_def asc_def py_isspace_def)
  have "llm_invoke E (system_prompt (language_prompts (asc ''en''))
      (py_join nl (take 8 african_knowledge_base)) (asc ''ai'')) = Inr (asc '' '')"
    by (simp add: E_def)
  then have "generate_response E (asc ''ai'') (py_join nl (take 8 african_knowledge_base))
      (asc ''en'') (Some []) = Inr []"
    by (simp add: generate_response_llm_success st)
  then have "run_enhanced_rag E (asc ''ai'') (asc ''en'') 5 True True = Inr []"
    using run_enhanced_rag_steps [OF h cc ctx, of "asc ''en''"] by simp
  then show ?thesis using h unfolding E_def by simp
qed

lemma rag_source_link: "rag_source r ''link'' = Some (dict_get r ''link'' [])"
  by (simp add: rag_source_def)

lemma collect_chunks_no_content:
  assumes "\<forall>s\<in>set web_sources. \<exists>l. s ''link'' = Some l \<and> fetch_webpage_content env l 8000 = Inr []"
  shows "collect_chunks env web_sources acc = Inr acc"
  using assms
proof (induction web_sources arbitrary: acc)
  case Nil
  then show ?case by simp
next
  case (Cons s rest)
  then obtain l where "s ''link'' = Some l" "fetch_webpage_content env l 8000 = Inr []"
    by auto
  then show ?case using Cons by (simp add: dict_index_def)
qed

lemma organic_results_some:
  "int (length rs) \<le> n \<Longrightarrow> organic_results (Some rs) n = rs"
proof -
  assume "int (length rs) \<le> n"
  then have "0 \<le> n" and "length rs \<le> nat n" by simp_all
  then show ?thesis by (simp add: organic_results_def py_slice_prefix_take)
qed

lemma demo_search_some:
  "int (length rs) \<le> n \<Longrightarrow>
   rag_service_web_search (demo_env (Inr (Some rs)) page completion) query n focus =
     Inr (map rag_source rs)"
  by (simp add: rag_service_web_search_def Let_def organic_results_some)

theorem empty_corpus_falls_back_to_knowledge_base_witness:
  "rag_service_web_search (demo_env (Inr (Some three_hits)) (Inl provider_down) (Inr (asc ''ok'')))
     (asc ''ai'') 5 True = Inr (map rag_source three_hits) \<and>
   collect_chunks (demo_env (Inr (Some three_hits)) (Inl provider_down) (Inr (asc ''ok'')))
     (map rag_source three_hits) [] = Inr [] \<and>
   run_enhanced_rag (demo_env (Inr (Some three_hits)) (Inl provider_down) (Inr (asc ''ok'')))
     (asc ''ai'') (asc ''en'') 5 False True =
   generate_response (demo_env (Inr (Some three_hits)) (Inl provider_down) (Inr (asc ''ok'')))
     (asc ''ai'') (py_join nl (take 5 african_knowledge_base)) (asc ''en'')
     (Some (map rag_source three_hits))"
proof -
  define E where "E = demo_env (Inr (Some three_hits)) (Inl provider_down) (Inr (asc ''ok''))"
  have h: "rag_service_web_search E (asc ''ai'') 5 True = Inr (map rag_source three_hits)"
    unfolding E_def by (rule demo_search_some) (simp add: three_hits_def)
  have f: "fetch_webpage_content E l 8000 = Inr []" for l
    by (rule fetch_webpage_content_on_exception(1) [of _ _ provider_down]) (simp add: E_def)
  have c: "collect_chunks E (map rag_source three_hits) [] = Inr []"
    by (rule collect_chunks_no_content) (auto simp: rag_source_link f)
  show ?thesis
    using empty_corpus_falls_back_to_knowledge_base [OF h c, of "asc ''en''"] h c
    unfolding E_def by simp
qed

lemma page80_split: "py_split page80 = [abc26, abc26, abc26]"
  by (simp add: page80_def abc26_def sp_def asc_def py_split_def py_isspace_def)

lemma page80_length: "length page80 = 80"
  by (simp add: page80_def abc26_def sp_def asc_def)

lemma page80_chunks: "rag_service_chunk_text page80 600 100 = Inr [page80]"
proof -
  have "window_count 3 500 = 1" by (rule window_count_small) simp_all
  then have wc: "window_count (length (py_split page80)) 500 = 1"
    by (simp add: page80_split numeral_3_eq_3)
  have j: "py_join sp (window (py_split page80) 600 500 0) = page80"
    unfolding page80_split by (simp add: window_def page80_def)
  have "rag_service_chunk_text page80 600 100 =
      Inr (filter (\<lambda>ch. 50 < length ch)
        (map (\<lambda>k. py_join sp (window (py_split page80) (nat 600) (nat (600 - 100)) k))
          [0..<window_count (length (py_split page80)) (nat (600 - 100))]))"
    by (rule rag_chunk_text_as_windows) simp_all
  then show ?thesis by (simp add: wc j page80_length)
qed

lemma demo_fetch_ok:
  "fetch_webpage_content (demo_env found (Inr ok_page) completion) url 8000 = Inr page80"
  by (simp add: fetch_webpage_content_def raise_for_status_def ok_page_def Let_def
      py_slice_prefix_take page80_length)

lemma demo_collect_ok:
  "collect_chunks (demo_env found (Inr ok_page) completion) (map rag_source hits) acc =
     Inr (acc @ replicate (length hits) page80)"
proof (induction hits arbitrary: acc)
  case Nil
  then show ?case by simp
next
  case (Cons r rest)
  have "page80 \<noteq> []" using page80_length by auto
  then show ?case
    using Cons [of "acc @ [page80]"]
    by (simp add: dict_index_def rag_source_link demo_fetch_ok page80_chunks
        replicate_app_Cons_same)
qed

lemma take_three: "3 \<le> length xs \<Longrightarrow> take 3 xs = [xs ! 0, xs ! 1, xs ! 2]"
proof -
  assume "3 \<le> length xs"
  then obtain a b c rest where "xs = a # b # c # rest"
    by (cases xs; cases "tl xs"; cases "tl (tl xs)") auto
  then show ?thesis by (simp add: numeral_3_eq_3 numeral_2_eq_2)
qed

lemma sources_block_text:
  assumes "3 \<le> length srcs"
  shows "sources_header language @ concat (map source_line (take 3 srcs)) =
     [10, 10, 128218]
     @ (if language = asc ''sw'' then asc '' Vyanzo :'' else asc '' Sources :'') @ [10]
     @ [8226] @ asc '' '' @ dict_get (srcs ! 0) ''title'' (asc ''Unknown'') @ asc '' - ''
     @ dict_get (srcs ! 0) ''link'' [] @ [10]
     @ [8226] @ asc '' '' @ dict_get (srcs ! 1) ''title'' (asc ''Unknown'') @ asc '' - ''
     @ dict_get (srcs ! 1) ''link'' [] @ [10]
     @ [8226] @ asc '' '' @ dict_get (srcs ! 2) ''title'' (asc ''Unknown'') @ asc '' - ''
     @ dict_get (srcs ! 2) ''link'' [] @ [10]"
  by (simp add: take_three [OF assms] sources_header_def source_line_def nl_def)

lemma run_enhanced_rag_sources_text:
  assumes "rag_service_web_search env question n focus = Inr web_sources"
    and "collect_chunks env web_sources [] = Inr web_chunks"
    and "retrieve_context env (assemble web_chunks incl) question = Inr context"
    and "llm_invoke env (system_prompt (language_prompts language) context question) =
           Inr completion"
    and "3 \<le> length web_sources"
  shows "run_enhanced_rag env question language n incl focus =
     Inr (py_strip completion @ [10, 10, 128218]
          @ (if language = asc ''sw'' then asc '' Vyanzo :'' else asc '' Sources :'') @ [10]
          @ [8226] @ asc '' '' @ dict_get (web_sources ! 0) ''title'' (asc ''Unknown'')
          @ asc '' - '' @ dict_get (web_sources ! 0) ''link'' [] @ [10]
          @ [8226] @ asc '' '' @ dict_get (web_sources ! 1) ''title'' (asc ''Unknown'')
          @ asc '' - '' @ dict_get (web_sources ! 1) ''link'' [] @ [10]
          @ [8226] @ asc '' '' @ dict_get (web_sources ! 2) ''title'' (asc ''Unknown'')
          @ asc '' - '' @ dict_get (web_sources ! 2) ''link'' [] @ [10])"
proof -
  have ne: "web_sources \<noteq> []" using assms(5) by auto
  have "run_enhanced_rag env question language n incl focus =
      generate_response env question context language (Some web_sources)"
    by (rule run_enhanced_rag_steps [OF assms(1-3)])
  also have "\<dots> = Inr (py_strip completion @ sources_header language
      @ concat (map source_line (take 3 web_sources)))"
    using ne by (simp add: generate_response_llm_success [OF assms(4)])
  finally show ?thesis unfolding sources_block_text [OF assms(5)] .
qed

text \<open>
  Claim C7, as the code has it.  In a run of \<open>run_enhanced_rag\<close> where the search returned
  three results or more, the steps before answer generation raised nothing and the model
  call returned, the answer is the stripped completion, then two newlines, the books sign
  (U+1F4DA) and \<open>Sources :\<close> (\<open>Vyanzo :\<close> for \<open>sw\<close>) on a line, then exactly three lines
  \<open>bullet title - link\<close> (the bullet is U+2022) for the first three search results,
  whatever \<open>web_chunks\<close> their pages gave: a listed result need not have been fetched.
\<close>

theorem run_enhanced_rag_sources_block:
  assumes "rag_service_web_search env question n focus = Inr web_sources"
    and "collect_chunks env web_sources [] = Inr web_chunks"
    and "retrieve_context env (assemble web_chunks incl) question = Inr context"
    and "llm_invoke env (system_prompt (language_prompts language) context question) =
           Inr completion"
    and "3 \<le> length web_sources"
  shows "run_enhanced_rag env question language n incl focus =
     Inr (py_strip completion @ [10, 10, 128218]
          @ (if language = asc ''sw'' then asc '' Vyanzo :'' else asc '' Sources :'') @ [10]
          @ [8226] @ asc '' '' @ dict_get (web_sources ! 0) ''title'' (asc ''Unknown'')
          @ asc '' - '' @ dict_get (web_sources ! 0) ''link'' [] @ [10]
          @ [8226] @ asc '' '' @ dict_get (web_sources ! 1) ''title'' (asc ''Unknown'')
          @ asc '' - '' @ dict_get (web_sources ! 1) ''link'' [] @ [10]
          @ [8226] @ asc '' '' @ dict_get (web_sources ! 2) ''title'' (asc ''Unknown'')
          @ asc '' - '' @ dict_get (web_sources ! 2) ''link'' [] @ [10])"
  using assms by (rule run_enhanced_rag_sources_text)

lemma first_page_down_fields [simp]:
  "serpapi_wrapper (first_page_down found completion) = Inr ()"
  "search_results (first_page_down found completion) query = found"
  "requests_get (first_page_down found completion) url =
     (if url = asc ''http://a'' then Inl provider_down else Inr ok_page)"
  "soup_main_strings (first_page_down found completion) html = Inr [html]"
  "retrieve (first_page_down found completion) corpus question k = Inr (take k corpus)"
  "llm_invoke (first_page_down found completion) prompt = completion"
  by (simp_all add: first_page_down_def demo_env_def)

lemma first_page_down_search:
  "int (length rs) \<le> n \<Longrightarrow>
   rag_service_web_search (first_page_down (Inr (Some rs)) completion) query n focus =
     Inr (map rag_source rs)"
  by (simp add: rag_service_web_search_def Let_def organic_results_some)

lemma first_page_down_fetch:
  "fetch_webpage_content (first_page_down found completion) url 8000 =
     (if url = asc ''http://a'' then Inr [] else Inr page80)"
  by (simp add: fetch_webpage_content_def raise_for_status_def ok_page_def Let_def
      py_slice_prefix_take page80_length)

lemma four_hits_list:
  "four_hits = [hit ''A'' ''http://a'', hit ''B'' ''http://b'', hit ''C'' ''http://c'',
      hit ''D'' ''http://d'']"
  by (simp add: four_hits_def three_hits_def)

lemma rag_source_hit:
  "dict_get (rag_source (hit t l)) ''title'' d = asc t"
  "dict_get (rag_source (hit t l)) ''link'' d = asc l"
  by (simp_all add: rag_source_def hit_def dict_get_def)

lemma first_page_down_collect:
  "collect_chunks (first_page_down found completion) (map rag_source four_hits) [] =
     Inr [page80, page80, page80]"
proof -
  have ne: "page80 \<noteq> []" using page80_length by auto
  show ?thesis
    unfolding four_hits_list
    by (simp add: dict_index_def rag_source_link hit_def dict_get_def first_page_down_fetch
        page80_chunks ne)
qed

lemma lagos_strip: "py_strip (asc ''Lagos'') = asc ''Lagos''"
  by (simp add: py_strip_def asc_def py_isspace_def)

lemma first_page_down_run:
  "run_enhanced_rag (first_page_down (Inr (Some four_hits)) (Inr (asc ''Lagos''))) (asc ''ai'')
     language 5 True True =
   Inr (asc ''Lagos'' @ [10, 10, 128218]
        @ (if language = asc ''sw'' then asc '' Vyanzo :'' else asc '' Sources :'') @ [10]
        @ [8226] @ asc '' A - http://a'' @ [10]
        @ [8226] @ asc '' B - http://b'' @ [10]
        @ [8226] @ asc '' C - http://c'' @ [10])"
proof -
  define E where "E = first_page_down (Inr (Some four_hits)) (Inr (asc ''Lagos''))"
  define ws where "ws = map rag_source four_hits"
  have h: "rag_service_web_search E (asc ''ai'') 5 True = Inr ws"
    unfolding E_def ws_def by (rule first_page_down_search) (simp add: four_hits_list)
  have c: "collect_chunks E ws [] = Inr [page80, page80, page80]"
    unfolding E_def ws_def by (rule first_page_down_collect)
  have r: "retrieve_context E (assemble [page80, page80, page80] True) (asc ''ai'') =
      Inr (py_join nl (take 8 ([page80, page80, page80] @ african_knowledge_base)))"
    by (simp add: retrieve_context_def assemble_def E_def)
  have l: "llm_invoke E (system_prompt (language_prompts language)
      (py_join nl (take 8 ([page80, page80, page80] @ african_knowledge_base)))
      (asc ''ai'')) = Inr (asc ''Lagos'')"
    by (simp add: E_def)
  have n: "3 \<le> length ws" by (simp add: ws_def four_hits_list)
  have i: "ws ! 0 = rag_source (hit ''A'' ''http://a'')" "ws ! 1 = rag_source (hit ''B'' ''http://b'')"
    "ws ! 2 = rag_source (hit ''C'' ''http://c'')"
    by (simp_all add: ws_def four_hits_list)
  have t: "asc '' '' @ asc ''A'' @ asc '' - '' @ asc ''http://a'' = asc '' A - http://a''"
    "asc '' '' @ asc ''B'' @ asc '' - '' @ asc ''http://b'' = asc '' B - http://b''"
    "asc '' '' @ asc ''C'' @ asc '' - '' @ asc ''http://c'' = asc '' C - http://c''"
    by (simp_all add: asc_def)
  note s = run_enhanced_rag_sources_text [OF h c r l n, unfolded i rag_source_hit lagos_strip]
  show ?thesis
    using s t unfolding E_def by simp
qed

theorem run_enhanced_rag_sources_block_witness:
  "rag_service_web_search (first_page_down (Inr (Some four_hits)) (Inr (asc ''Lagos'')))
     (asc ''ai'') 5 True = Inr (map rag_source four_hits) \<and>
   collect_chunks (first_page_down (Inr (Some four_hits)) (Inr (asc ''Lagos'')))
     (map rag_source four_hits) [] = Inr [page80, page80, page80] \<and>
   3 \<le> length (map rag_source four_hits) \<and>
   run_enhanced_rag (first_page_down (Inr (Some four_hits)) (Inr (asc ''Lagos''))) (asc ''ai'')
     (asc ''sw'') 5 True True =
   Inr (asc ''Lagos'' @ [10, 10, 128218] @ asc '' Vyanzo :'' @ [10]
        @ [8226] @ asc '' A - http://a'' @ [10]
        @ [8226] @ asc '' B - http://b'' @ [10]
        @ [8226] @ asc '' C - http://c'' @ [10])"
proof -
  define E where "E = first_page_down (Inr (Some four_hits)) (Inr (asc ''Lagos''))"
  define ws where "ws = map rag_source four_hits"
  have h: "rag_service_web_search E (asc ''ai'') 5 True = Inr ws"
    unfolding E_def ws_def by (rule first_page_down_search) (simp add: four_hits_list)
  have c: "collect_chunks E ws [] = Inr [page80, page80, page80]"
    unfolding E_def ws_def by (rule first_page_down_collect)
  have r: "retrieve_context E (assemble [page80, page80, page80] True) (asc ''ai'') =
      Inr (py_join nl (take 8 ([page80, page80, page80] @ african_knowledge_base)))"
    by (simp add: retrieve_context_def assemble_def E_def)
  have l: "llm_invoke E (system_prompt (language_prompts (asc ''sw''))
      (py_join nl (take 8 ([page80, page80, page80] @ african_knowledge_base)))
      (asc ''ai'')) = Inr (asc ''Lagos'')"
    by (simp add: E_def)
  have n: "3 \<le> length ws" by (simp add: ws_def four_hits_list)
  have i: "ws ! 0 = rag_source (hit ''A'' ''http://a'')" "ws ! 1 = rag_source (hit ''B'' ''http://b'')"
    "ws ! 2 = rag_source (hit ''C'' ''http://c'')"
    by (simp_all add: ws_def four_hits_list)
  have t: "asc '' '' @ asc ''A'' @ asc '' - '' @ asc ''http://a'' = asc '' A - http://a''"
    "asc '' '' @ asc ''B'' @ asc '' - '' @ asc ''http://b'' = asc '' B - http://b''"
    "asc '' '' @ asc ''C'' @ asc '' - '' @ asc ''http://c'' = asc '' C - http://c''"
    by (simp_all add: asc_def)
  note s = run_enhanced_rag_sources_block [OF h c r l n, unfolded i rag_source_hit lagos_strip]
  show ?thesis
    using s t h c n unfolding E_def ws_def by simp
qed

text \<open>
  Claim C7 as stated fails.  Four results \<open>A\<close>, \<open>B\<close>, \<open>C\<close>, \<open>D\<close> are found; the page of \<open>A\<close>
  cannot be fetched, the pages of \<open>B\<close>, \<open>C\<close> and \<open>D\<close> are fetched and chunked, and the
  model answers.  Three sources were fetched, yet the sources section lists \<open>A\<close>, which
  was not fetched, and leaves out \<open>D\<close>, which was: the titles and links listed are not
  those of the three sources fetched.
\<close>

theorem run_enhanced_rag_sources_block_counterexample:
  "rag_service_web_search (first_page_down (Inr (Some four_hits)) (Inr (asc ''Lagos'')))
     (asc ''ai'') 5 True = Inr (map rag_source four_hits) \<and>
   fetch_webpage_content (first_page_down (Inr (Some four_hits)) (Inr (asc ''Lagos'')))
     (asc ''http://a'') 8000 = Inr [] \<and>
   fetch_webpage_content (first_page_down (Inr (Some four_hits)) (Inr (asc ''Lagos'')))
     (asc ''http://b'') 8000 = Inr page80 \<and>
   fetch_webpage_content (first_page_down (Inr (Some four_hits)) (Inr (asc ''Lagos'')))
     (asc ''http://c'') 8000 = Inr page80 \<and>
   fetch_webpage_content (first_page_down (Inr (Some four_hits)) (Inr (asc ''Lagos'')))
     (asc ''http://d'') 8000 = Inr page80 \<and>
   collect_chunks (first_page_down (Inr (Some four_hits)) (Inr (asc ''Lagos'')))
     (map rag_source four_hits) [] = Inr [page80, page80, page80] \<and>
   run_enhanced_rag (first_page_down (Inr (Some four_hits)) (Inr (asc ''Lagos''))) (asc ''ai'')
     (asc ''en'') 5 True True =
   Inr (asc ''Lagos'' @ [10, 10, 128218] @ asc '' Sources :'' @ [10]
        @ [8226] @ asc '' A - http://a'' @ [10]
        @ [8226] @ asc '' B - http://b'' @ [10]
        @ [8226] @ asc '' C - http://c'' @ [10])"
proof -
  have "rag_service_web_search (first_page_down (Inr (Some four_hits)) (Inr (asc ''Lagos'')))
     (asc ''ai'') 5 True = Inr (map rag_source four_hits)"
    by (rule first_page_down_search) (simp add: four_hits_list)
  then show ?thesis
    by (simp add: first_page_down_fetch first_page_down_collect first_page_down_run)
qed

subsection \<open>The legacy pipeline \<open>run_agent\<close>\<close>

lemma page80_agent_chunks: "chunk_text page80 512 64 = Inr [page80]"
proof -
  have "window_count 3 448 = 1" by (rule window_count_small) simp_all
  then have wc: "window_count (length (py_split page80)) 448 = 1"
    by (simp add: page80_split numeral_3_eq_3)
  have j: "py_join sp (window (py_split page80) 512 448 0) = page80"
    unfolding page80_split by (simp add: window_def page80_def)
  have ne: "page80 \<noteq> []" using page80_length by auto
  have "chunk_text page80 512 64 =
      Inr (filter (\<lambda>ch. ch \<noteq> [])
        (map (\<lambda>k. py_join sp (window (py_split page80) (nat 512) (nat (512 - 64)) k))
          [0..<window_count (length (py_split page80)) (nat (512 - 64))]))"
    by (rule chunk_text_as_windows) simp_all
  then show ?thesis by (simp add: wc j ne)
qed

lemma demo_fetch_text_ok:
  "fetch_webpage_text (demo_env found (Inr ok_page) completion) url = Inr page80"
  by (simp add: fetch_webpage_text_def ok_page_def Let_def py_slice_prefix_take page80_length)

lemma agent_link_fields:
  "agent_link r ''link'' = Some (dict_get r ''link'' [])"
  "agent_link r ''title'' = Some (dict_get r ''title'' [])"
  by (simp_all add: agent_link_def)

lemma demo_agent_collect_ok:
  "\<exists>sources. agent_collect (demo_env found (Inr ok_page) completion) (map agent_link hits)
      (chunks, srcs) = Inr (chunks @ replicate (length hits) page80, sources)"
proof (induction hits arbitrary: chunks srcs)
  case Nil
  then show ?case by simp
next
  case (Cons r rest)
  have ne: "page80 \<noteq> []" using page80_length by auto
  obtain sources where
    "agent_collect (demo_env found (Inr ok_page) completion) (map agent_link rest)
       (chunks @ [page80],
        srcs @ [dict_get r ''title'' [] @ asc '' ('' @ dict_get r ''link'' [] @ asc '')''])
     = Inr ((chunks @ [page80]) @ replicate (length rest) page80, sources)"
    using Cons by blast
  then show ?case
    using ne
    by (simp add: dict_index_def agent_link_fields demo_fetch_text_ok page80_agent_chunks
        replicate_app_Cons_same)
qed

lemma demo_web_search_some:
  "int (length rs) \<le> n \<Longrightarrow>
   web_search (demo_env (Inr (Some rs)) page completion) query n = Inr (map agent_link rs)"
  by (simp add: web_search_def organic_results_some)

lemma hit_fields:
  "dict_get (hit t l) ''title'' d = asc t" "dict_get (hit t l) ''link'' d = asc l"
  by (simp_all add: hit_def dict_get_def)

text \<open>
  \<open>run_agent\<close> puts no bound of its own on the sources it lists: with four links it
  lists four.
\<close>

lemma run_agent_lists_every_link:
  "run_agent (demo_env (Inr (Some four_hits)) (Inr ok_page) (Inr (asc ''Lagos''))) (asc ''ai'')
     (asc ''fr'') 4 True =
   Inr (py_strip (asc ''Lagos'') @ [10, 10] @ asc ''Sources :'' @ [10]
        @ py_join nl [asc ''- A : http://a'', asc ''- B : http://b'', asc ''- C : http://c'',
            asc ''- D : http://d''])"
proof -
  define E where "E = demo_env (Inr (Some four_hits)) (Inr ok_page) (Inr (asc ''Lagos''))"
  have four: "four_hits = [hit ''A'' ''http://a'', hit ''B'' ''http://b'', hit ''C'' ''http://c'',
      hit ''D'' ''http://d'']"
    by (simp add: four_hits_def three_hits_def)
  have w: "web_search E (asc ''ai'') 4 = Inr (map agent_link four_hits)"
    unfolding E_def by (rule demo_web_search_some) (simp add: four)
  obtain sources where
    c: "agent_collect E (map agent_link four_hits) ([], []) =
          Inr ([] @ replicate (length four_hits) page80, sources)"
    unfolding E_def using demo_agent_collect_ok by blast
  have l: "agent_source_lines (map agent_link four_hits) =
      Inr [asc ''- A : http://a'', asc ''- B : http://b'', asc ''- C : http://c'',
           asc ''- D : http://d'']"
    by (simp add: four agent_source_line_def dict_index_def agent_link_fields hit_fields asc_def)
  have ne: "map agent_link four_hits \<noteq> []" by (simp add: four)
  have "run_agent E (asc ''ai'') (asc ''fr'') 4 True =
      Inr (py_strip (asc ''Lagos'') @ ([10, 10] @ asc ''Sources :'' @ [10])
        @ py_join nl [asc ''- A : http://a'', asc ''- B : http://b'', asc ''- C : http://c'',
            asc ''- D : http://d''])"
    unfolding run_agent_def w
    apply (simp only: bind_err_simps c split_conv Let_def l)
    using ne by (simp add: E_def)
  then show ?thesis unfolding E_def by simp
qed

text \<open>In \<open>run_agent\<close> a failing model call is not caught.\<close>

lemma run_agent_model_failure:
  "run_agent (demo_env (Inr None) (Inr ok_page) (Inl provider_down)) (asc ''ai'') (asc ''fr'') 3 True
     = Inl provider_down"
  by (simp add: run_agent_def web_search_def organic_results_none)

end
